theory Spec2Isabelle
  imports Complex_Main "HOL-Library.Multiset"
begin

section \<open>Built-in functions of the JavaScript runtime\<close>

text \<open>
  The console is TypeScript. Its pure logic lives in three React components:
  \<^verbatim>\<open>AuditConfigForm\<close> (the structural edits of the configuration),
  \<^verbatim>\<open>AuditReportView\<close> (the derived issue log and the indicators) and
  \<^verbatim>\<open>ComparisonView\<close> (the comparison of two stored reports).  The components call a
  handful of built-ins of the language; they are written out here, following ECMAScript.

  A string is the list of its code units, and the strings of this model are those
  whose code units are below 256.  Among these code units, the white space and line
  terminators of ECMAScript are TAB, LF, VT, FF, CR, SP and NBSP (the remaining ones,
  such as the byte order mark, have larger code units).
\<close>

definition codeUnit :: "char \<Rightarrow> nat" where
  "codeUnit c = of_char c"

definition isWhiteSpace :: "char \<Rightarrow> bool" where
  "isWhiteSpace c = (codeUnit c \<in> {9, 10, 11, 12, 13, 32, 160})"

text \<open>\<^verbatim>\<open>String.prototype.trim\<close>: white space is removed at both ends.\<close>

definition trim :: "string \<Rightarrow> string" where
  "trim s = rev (dropWhile isWhiteSpace (rev (dropWhile isWhiteSpace s)))"

text \<open>
  \<^verbatim>\<open>String.prototype.split(sep)\<close> for a separator of one character: the pieces between
  the occurrences of the separator, empty pieces included; a string without separator
  (the empty string too) gives one piece.
\<close>

fun split :: "char \<Rightarrow> string \<Rightarrow> string list" where
  "split sep [] = [[]]"
| "split sep (c # cs) =
     (if c = sep then [] # split sep cs
      else (case split sep cs of
              [] \<Rightarrow> [[c]]
            | t # ts \<Rightarrow> (c # t) # ts))"

text \<open>\<^verbatim>\<open>Boolean(s)\<close> on a string: only the empty string is falsy.\<close>

definition Boolean :: "string \<Rightarrow> bool" where
  "Boolean s = (s \<noteq> [])"

text \<open>\<^verbatim>\<open>Array.prototype.join(sep)\<close> on an array of strings.\<close>

fun join :: "string \<Rightarrow> string list \<Rightarrow> string" where
  "join sep [] = []"
| "join sep [x] = x"
| "join sep (x # y # ys) = x @ sep @ join sep (y # ys)"

text \<open>
  The decimal rendering of a number in a template literal.  The counts of a report and
  the lengths of arrays are integers, modelled as \<^typ>\<open>int\<close> and \<^typ>\<open>nat\<close>; for an
  integer below \<open>10\<^sup>2\<^sup>1\<close> in absolute value \<^verbatim>\<open>Number::toString\<close> gives its decimal
  digits (beyond that JavaScript switches to the exponent notation, which is not
  modelled).
\<close>

definition digitChar :: "nat \<Rightarrow> char" where
  "digitChar d = ''0123456789'' ! d"

fun decimal :: "nat \<Rightarrow> string" where
  "decimal n = (if n < 10 then [digitChar n] else decimal (n div 10) @ [digitChar (n mod 10)])"

definition Number_toString :: "int \<Rightarrow> string" where
  "Number_toString n = (if n < 0 then ''-'' @ decimal (nat (- n)) else decimal (nat n))"

section \<open>The configuration model (\<^verbatim>\<open>types/audit.ts\<close>, \<^verbatim>\<open>AuditConfigForm.tsx\<close>)\<close>

datatype DataType = DString | DInteger | DFloat | DBoolean | DDatetime | DCategory

datatype Severity = Info | Warning | Error

text \<open>
  TypeScript's types are erased when the program runs: an object is a finite set of
  properties, and \<^verbatim>\<open>{ ...a, ...b }\<close> copies the properties that are present.  A record
  therefore holds every property as an option, \<open>None\<close> for a property that is absent.
  An object that conforms to \<^verbatim>\<open>interface SchemaField\<close> has \<open>name\<close>, \<open>dtype\<close> and
  \<open>nullable\<close> present; a \<^verbatim>\<open>Partial<SchemaField>\<close> is any such record.  The fields
  \<open>name\<close>, \<open>description\<close>, \<open>min\<close>, \<open>max\<close> and \<open>severity\<close> occur in several interfaces and
  carry a suffix here.
\<close>

record SchemaField =
  name_sf :: "string option"
  dtype :: "DataType option"
  nullable :: "bool option"
  description_sf :: "string option"
  min_sf :: "rat option"
  max_sf :: "rat option"
  allowed_values :: "string list option"
  regex :: "string option"

record RuleDefinition =
  name_rd :: "string option"
  expression :: "string option"
  severity_rd :: "Severity option"
  description_rd :: "string option"

text \<open>
  An array is the list of its positions.  A position holds an object, holds
  \<^verbatim>\<open>undefined\<close>, or is an empty slot: a position below the length at which the array
  has no element.  The arrays that the console receives and builds through its form
  are dense arrays of objects; an empty slot appears after a write beyond the end of
  an array, and an \<^verbatim>\<open>undefined\<close> element where such an array is copied.
\<close>

datatype 'a slot = Empty | Undefined | Item 'a

record AuditConfig =
  dataset_name :: string
  primary_key :: "string list option"
  schema :: "SchemaField slot list"
  rules :: "RuleDefinition slot list"

definition emptySchemaField :: SchemaField where
  "emptySchemaField = \<lparr>name_sf = None, dtype = None, nullable = None, description_sf = None,
     min_sf = None, max_sf = None, allowed_values = None, regex = None\<rparr>"

definition emptyRuleDefinition :: RuleDefinition where
  "emptyRuleDefinition = \<lparr>name_rd = None, expression = None, severity_rd = None,
     description_rd = None\<rparr>"

text \<open>One property of \<^verbatim>\<open>{ ...a, ...b }\<close>: the property of \<open>b\<close> when \<open>b\<close> has it.\<close>

definition override :: "'a option \<Rightarrow> 'a option \<Rightarrow> 'a option" where
  "override a b = (case b of None \<Rightarrow> a | Some v \<Rightarrow> Some v)"

text \<open>
  \<^verbatim>\<open>{ ...nextSchema[index], ...field }\<close>.  Spreading \<^verbatim>\<open>undefined\<close> contributes no
  property.
\<close>

definition spreadSchemaField :: "SchemaField option \<Rightarrow> SchemaField \<Rightarrow> SchemaField" where
  "spreadSchemaField old field =
     (let a = (case old of None \<Rightarrow> emptySchemaField | Some obj \<Rightarrow> obj) in
      \<lparr>name_sf = override (name_sf a) (name_sf field),
       dtype = override (dtype a) (dtype field),
       nullable = override (nullable a) (nullable field),
       description_sf = override (description_sf a) (description_sf field),
       min_sf = override (min_sf a) (min_sf field),
       max_sf = override (max_sf a) (max_sf field),
       allowed_values = override (allowed_values a) (allowed_values field),
       regex = override (regex a) (regex field)\<rparr>)"

definition spreadRuleDefinition :: "RuleDefinition option \<Rightarrow> RuleDefinition \<Rightarrow> RuleDefinition" where
  "spreadRuleDefinition old rule =
     (let a = (case old of None \<Rightarrow> emptyRuleDefinition | Some obj \<Rightarrow> obj) in
      \<lparr>name_rd = override (name_rd a) (name_rd rule),
       expression = override (expression a) (expression rule),
       severity_rd = override (severity_rd a) (severity_rd rule),
       description_rd = override (description_rd a) (description_rd rule)\<rparr>)"

text \<open>
  \<^verbatim>\<open>[...xs]\<close> copies an array through its iterator, which reads every position below
  the length: an empty slot is read as \<^verbatim>\<open>undefined\<close>, so the copy has an \<^verbatim>\<open>undefined\<close>
  element there.
\<close>

definition spreadArray :: "'a slot list \<Rightarrow> 'a slot list" where
  "spreadArray xs = map (\<lambda>s. case s of Empty \<Rightarrow> Undefined | Undefined \<Rightarrow> Undefined | Item v \<Rightarrow> Item v) xs"

text \<open>
  Reading and writing an array by index.  The index is a JavaScript number; the form
  passes positions of the rendered list, so it is an integer here.  \<^verbatim>\<open>xs[i]\<close> is the
  object at the position, and \<^verbatim>\<open>undefined\<close> (\<open>None\<close>) outside the array, at an empty slot
  and at an \<^verbatim>\<open>undefined\<close> element.  Writing at or beyond the end does not fail: the
  array grows to hold the position, and the positions skipped are empty slots.  The
  positions of an array are the integers from 0 to \<open>2\<^sup>3\<^sup>2 - 2\<close>; writing at a negative
  index, or beyond the end at \<open>2\<^sup>3\<^sup>2 - 1\<close> or more, sets a property that is not an
  element: the elements and the length stay as they were.  (An array holds its
  elements and nothing else here; a property that is not an element is not kept.)
\<close>

definition arrayGet :: "'a slot list \<Rightarrow> int \<Rightarrow> 'a option" where
  "arrayGet xs i =
     (if 0 \<le> i \<and> nat i < length xs
      then (case xs ! nat i of Empty \<Rightarrow> None | Undefined \<Rightarrow> None | Item v \<Rightarrow> Some v)
      else None)"

definition arraySet :: "'a slot list \<Rightarrow> int \<Rightarrow> 'a \<Rightarrow> 'a slot list" where
  "arraySet xs i v =
     (if i < 0 then xs
      else if nat i < length xs then xs[nat i := Item v]
      else if i < 4294967295 then xs @ replicate (nat i - length xs) Empty @ [Item v]
      else xs)"

text \<open>
  \<^verbatim>\<open>xs.filter((_, idx) => idx !== index)\<close>.  \<^verbatim>\<open>Array.prototype.filter\<close> visits the
  positions that have an element and skips the empty slots; the positions count on.
\<close>

fun filterIdx :: "nat \<Rightarrow> int \<Rightarrow> 'a slot list \<Rightarrow> 'a slot list" where
  "filterIdx idx index [] = []"
| "filterIdx idx index (x # xs) =
     (if x = Empty then filterIdx (Suc idx) index xs
      else if int idx \<noteq> index then x # filterIdx (Suc idx) index xs
      else filterIdx (Suc idx) index xs)"

text \<open>
  The six edits.  Each is the function handed to \<^verbatim>\<open>setConfig\<close>: from the previous
  configuration to the next.  None of them has a \<^verbatim>\<open>throw\<close>, and no built-in they call
  throws, so each returns a configuration for every index.
\<close>

definition updateSchemaField :: "int \<Rightarrow> SchemaField \<Rightarrow> AuditConfig \<Rightarrow> AuditConfig" where
  "updateSchemaField index field prev =
     (let nextSchema = spreadArray (schema prev);
          nextSchema = arraySet nextSchema index (spreadSchemaField (arrayGet nextSchema index) field)
      in prev\<lparr>schema := nextSchema\<rparr>)"

definition addSchemaField :: "AuditConfig \<Rightarrow> AuditConfig" where
  "addSchemaField prev =
     prev\<lparr>schema := spreadArray (schema prev) @
        [Item (emptySchemaField\<lparr>
           name_sf := Some (''field_'' @ decimal (length (schema prev) + 1)),
           dtype := Some DString,
           nullable := Some True\<rparr>)]\<rparr>"

definition removeSchemaField :: "int \<Rightarrow> AuditConfig \<Rightarrow> AuditConfig" where
  "removeSchemaField index prev = prev\<lparr>schema := filterIdx 0 index (schema prev)\<rparr>"

definition updateRule :: "int \<Rightarrow> RuleDefinition \<Rightarrow> AuditConfig \<Rightarrow> AuditConfig" where
  "updateRule index rule prev =
     (let nextRules = spreadArray (rules prev);
          nextRules = arraySet nextRules index (spreadRuleDefinition (arrayGet nextRules index) rule)
      in prev\<lparr>rules := nextRules\<rparr>)"

definition addRule :: "AuditConfig \<Rightarrow> AuditConfig" where
  "addRule prev =
     prev\<lparr>rules := spreadArray (rules prev) @
        [Item \<lparr>name_rd = Some (''Rule '' @ decimal (length (rules prev) + 1)),
               expression = Some ''1 = 1'',
               severity_rd = Some Warning,
               description_rd = Some ''''\<rparr>]\<rparr>"

definition removeRule :: "int \<Rightarrow> AuditConfig \<Rightarrow> AuditConfig" where
  "removeRule index prev = prev\<lparr>rules := filterIdx 0 index (rules prev)\<rparr>"

text \<open>
  The \<^verbatim>\<open>onChange\<close> handler of the "Allowed values" input:
  \<^verbatim>\<open>updateSchemaField(index, { allowed_values:
     event.target.value.split(",").map((value) => value.trim()).filter(Boolean) })\<close>.
\<close>

definition onChangeAllowedValues :: "int \<Rightarrow> string \<Rightarrow> AuditConfig \<Rightarrow> AuditConfig" where
  "onChangeAllowedValues index raw prev =
     updateSchemaField index
       (emptySchemaField\<lparr>allowed_values := Some (filter Boolean (map trim (split CHR '','' raw)))\<rparr>)
       prev"

section \<open>More built-ins: numbers, comparison, sorting, rendering\<close>

text \<open>
  \<^verbatim>\<open>parseInt(string)\<close> with no radix, step by step as in ECMAScript: leading white space
  is skipped; one sign is taken; after a prefix \<^verbatim>\<open>0x\<close> or \<^verbatim>\<open>0X\<close> the radix is 16,
  otherwise 10; the longest run of digits of that radix is read and what follows it is
  ignored; with no digit the result is \<^verbatim>\<open>NaN\<close>, here \<open>None\<close>.  The result is a
  JavaScript number, a double: the integer read is rounded to 53 significant bits, to
  the nearest double and to the even one of two equally near (\<open>toNumber\<close>), as V8
  does (ECMAScript lets an implementation replace the digits after the 20th by zeros);
  an integer that rounds to \<open>2\<^sup>1\<^sup>0\<^sup>2\<^sup>4\<close> or more gives \<^verbatim>\<open>Infinity\<close>, for which \<open>2\<^sup>1\<^sup>0\<^sup>2\<^sup>4\<close> stands.
  The number is modelled by the integer it denotes.  The comparison function subtracts
  two such numbers, and the sort looks at the sign of the result only: the difference
  of two doubles has the sign of the difference of the integers, and
  \<^verbatim>\<open>Infinity - Infinity\<close>, which is \<^verbatim>\<open>NaN\<close>, is taken for 0 by the sort.
\<close>

fun bitLength :: "nat \<Rightarrow> nat" where
  "bitLength n = (if n = 0 then 0 else Suc (bitLength (n div 2)))"

definition toNumber :: "nat \<Rightarrow> nat" where
  "toNumber n =
     (if n < 9007199254740992 then n
      else
        (let e = bitLength n - 53;
             q = n div 2 ^ e;
             r = n mod 2 ^ e;
             half = 2 ^ (e - 1);
             q = (if half < r \<or> (r = half \<and> odd q) then q + 1 else q)
         in min (q * 2 ^ e) (2 ^ 1024)))"


definition digitValue :: "char \<Rightarrow> nat option" where
  "digitValue c =
     (let n = codeUnit c in
      if 48 \<le> n \<and> n \<le> 57 then Some (n - 48)
      else if 97 \<le> n \<and> n \<le> 122 then Some (n - 87)
      else if 65 \<le> n \<and> n \<le> 90 then Some (n - 55)
      else None)"

definition isRadixDigit :: "nat \<Rightarrow> char \<Rightarrow> bool" where
  "isRadixDigit R c = (case digitValue c of None \<Rightarrow> False | Some d \<Rightarrow> d < R)"

definition mathInt :: "nat \<Rightarrow> string \<Rightarrow> nat" where
  "mathInt R Z = foldl (\<lambda>acc c. acc * R + (case digitValue c of None \<Rightarrow> 0 | Some d \<Rightarrow> d)) 0 Z"

definition parseInt :: "string \<Rightarrow> int option" where
  "parseInt inputString =
     (let S = dropWhile isWhiteSpace inputString;
          sign = (if S \<noteq> [] \<and> hd S = CHR ''-'' then - 1 else 1);
          S = (if S \<noteq> [] \<and> (hd S = CHR ''+'' \<or> hd S = CHR ''-'') then tl S else S);
          stripPrefix = (take 2 S = ''0x'' \<or> take 2 S = ''0X'');
          R = (if stripPrefix then 16 else 10);
          S = (if stripPrefix then drop 2 S else S);
          Z = takeWhile (isRadixDigit R) S
      in if Z = [] then None else Some (sign * int (toNumber (mathInt R Z))))"

text \<open>
  \<^verbatim>\<open>a.localeCompare(b)\<close> is negative, zero or positive as \<open>a\<close> sorts before \<open>b\<close>, with
  it or after it in the collation of the host, which depends on the engine and on the
  locale.  The collation is a parameter \<open>collate\<close> of the functions that compare row
  identifiers.  ECMAScript requires it to be a consistent comparison function; two of
  its requirements are used: a string collates with itself, and exchanging the
  arguments exchanges the sign.
\<close>

definition hostCollation :: "(string \<Rightarrow> string \<Rightarrow> int) \<Rightarrow> bool" where
  "hostCollation collate =
     ((\<forall>a. collate a a = 0) \<and> (\<forall>a b. (collate a b < 0) = (0 < collate b a)))"

text \<open>
  One collation: the comparison of the code units, first difference first, a proper
  prefix before the longer string.
\<close>

fun codeUnitCompare :: "string \<Rightarrow> string \<Rightarrow> int" where
  "codeUnitCompare [] [] = 0"
| "codeUnitCompare [] (y # ys) = - 1"
| "codeUnitCompare (x # xs) [] = 1"
| "codeUnitCompare (x # xs) (y # ys) =
     (if codeUnit x < codeUnit y then - 1
      else if codeUnit y < codeUnit x then 1
      else codeUnitCompare xs ys)"

text \<open>
  \<^verbatim>\<open>Array.prototype.sort(comparefn)\<close>.  ECMAScript requires a stable sort when
  \<open>comparefn\<close> is a consistent comparison function, and leaves the order of the result
  to the implementation when it is not.  The functions below are the sort of V8, the
  engine of Chrome and Node.js, for an array of fewer than 64 elements: the longest run
  at the start of the array that is ascending (\<^verbatim>\<open>comparefn(a[i + 1], a[i]) >= 0\<close>) or
  strictly descending (\<^verbatim>\<open>< 0\<close>) is found, a descending run is reversed, and each
  element after the run is inserted into the sorted part at the position that a binary
  search finds.  (V8 cuts a longer array into pieces that it sorts in this way and then
  merges; when \<open>comparefn\<close> is a consistent comparison function the result is the
  same, the one stable sorted arrangement.)
\<close>

text \<open>
  The loop of \<^verbatim>\<open>CountAndMakeRun\<close>: how many of the elements \<open>xs\<close> that follow
  \<open>previousElement\<close> continue the run.
\<close>

fun countRun :: "('a \<Rightarrow> 'a \<Rightarrow> int) \<Rightarrow> bool \<Rightarrow> 'a \<Rightarrow> 'a list \<Rightarrow> nat" where
  "countRun comparefn isDescending previousElement [] = 0"
| "countRun comparefn isDescending previousElement (currentElement # xs) =
     (let order = comparefn currentElement previousElement in
      if isDescending then
        (if order \<ge> 0 then 0 else Suc (countRun comparefn isDescending currentElement xs))
      else
        (if order < 0 then 0 else Suc (countRun comparefn isDescending currentElement xs)))"

text \<open>
  \<^verbatim>\<open>CountAndMakeRun\<close> on an array of two or more elements: the length of the run, and the
  array with the run reversed if it was descending.
\<close>

fun countAndMakeRun :: "('a \<Rightarrow> 'a \<Rightarrow> int) \<Rightarrow> 'a list \<Rightarrow> nat \<times> 'a list" where
  "countAndMakeRun comparefn (elementHigh # elementLow # xs) =
     (let order = comparefn elementLow elementHigh;
          isDescending = (order < 0);
          runLength = 2 + countRun comparefn isDescending elementLow xs;
          workArray = elementHigh # elementLow # xs
      in if isDescending
         then (runLength, rev (take runLength workArray) @ drop runLength workArray)
         else (runLength, workArray))"
| "countAndMakeRun comparefn xs = (length xs, xs)"

text \<open>
  The binary search of \<^verbatim>\<open>BinaryInsertionSort\<close> for the position of \<open>pivot\<close> in the
  sorted part \<open>sortedPart\<close>, between \<open>left\<close> and \<open>right\<close>.
\<close>

function findInsertionPoint ::
    "('a \<Rightarrow> 'a \<Rightarrow> int) \<Rightarrow> 'a \<Rightarrow> 'a list \<Rightarrow> nat \<Rightarrow> nat \<Rightarrow> nat" where
  "findInsertionPoint comparefn pivot sortedPart left right =
     (if left < right then
        (let mid = left + (right - left) div 2;
             order = comparefn pivot (sortedPart ! mid)
         in if order < 0 then findInsertionPoint comparefn pivot sortedPart left mid
            else findInsertionPoint comparefn pivot sortedPart (mid + 1) right)
      else left)"
  by pat_completeness auto
termination
  by (relation "measure (\<lambda>(comparefn, pivot, sortedPart, left, right). right - left)") auto

declare findInsertionPoint.simps [simp del]

text \<open>
  \<^verbatim>\<open>BinaryInsertionSort\<close>: the elements \<open>rest\<close> after the sorted part are inserted one by
  one.
\<close>

fun binaryInsertionSort :: "('a \<Rightarrow> 'a \<Rightarrow> int) \<Rightarrow> 'a list \<Rightarrow> 'a list \<Rightarrow> 'a list" where
  "binaryInsertionSort comparefn sortedPart [] = sortedPart"
| "binaryInsertionSort comparefn sortedPart (pivot # rest) =
     (let left = findInsertionPoint comparefn pivot sortedPart 0 (length sortedPart)
      in binaryInsertionSort comparefn (take left sortedPart @ pivot # drop left sortedPart) rest)"

definition array_sort :: "('a \<Rightarrow> 'a \<Rightarrow> int) \<Rightarrow> 'a list \<Rightarrow> 'a list" where
  "array_sort comparefn xs =
     (if length xs < 2 then xs
      else
        (let (runLength, workArray) = countAndMakeRun comparefn xs
         in binaryInsertionSort comparefn (take runLength workArray) (drop runLength workArray)))"

text \<open>
  \<^verbatim>\<open>x.toFixed(1)\<close>.  A finite JavaScript number is a rational number, and \<^verbatim>\<open>toFixed\<close>
  rounds its exact value to the nearest tenth, a tie going to the larger one (below
  \<open>10\<^sup>2\<^sup>1\<close>; beyond that JavaScript switches to the exponent notation, which is not
  modelled).
\<close>

definition toFixed1 :: "rat \<Rightarrow> string" where
  "toFixed1 x =
     (let s = (if x < 0 then ''-'' else []);
          x = (if x < 0 then - x else x);
          n = nat \<lfloor>x * 10 + 1 / 2\<rfloor>
      in s @ decimal (n div 10) @ ''.'' @ [digitChar (n mod 10)])"

text \<open>
  A sample row is an object from column names to strings, parsed from JSON.  It is the
  list of its own properties, in the order in which JavaScript enumerates them.
  \<^verbatim>\<open>sample[col]\<close> reads an own property if the row has one of that name; otherwise it
  looks the name up in \<^verbatim>\<open>Object.prototype\<close>, whose members are functions and, for
  \<^verbatim>\<open>__proto__\<close>, an object; for any other name it is \<^verbatim>\<open>undefined\<close>.
\<close>

type_synonym sample = "(string \<times> string) list"

datatype propertyValue = UndefinedValue | StringValue string | PrototypeMember

definition objectPrototypeNames :: "string list" where
  "objectPrototypeNames =
     [''constructor'', ''hasOwnProperty'', ''isPrototypeOf'', ''propertyIsEnumerable'',
      ''toLocaleString'', ''toString'', ''valueOf'', ''__proto__'',
      ''__defineGetter__'', ''__defineSetter__'', ''__lookupGetter__'', ''__lookupSetter__'']"

definition getProperty :: "sample \<Rightarrow> string \<Rightarrow> propertyValue" where
  "getProperty sample col =
     (case map_of sample col of
        Some v \<Rightarrow> StringValue v
      | None \<Rightarrow> if col \<in> set objectPrototypeNames then PrototypeMember else UndefinedValue)"

text \<open>
  \<^verbatim>\<open>!v\<close>: \<^verbatim>\<open>undefined\<close> and the empty string are falsy; a function or an object is
  not.
\<close>

definition notValue :: "propertyValue \<Rightarrow> bool" where
  "notValue v =
     (case v of UndefinedValue \<Rightarrow> True | StringValue s \<Rightarrow> \<not> Boolean s | PrototypeMember \<Rightarrow> False)"

text \<open>
  \<^verbatim>\<open>JSON.stringify(sample)\<close> for such an object: the properties in order, names and values
  quoted, with the escapes of \<^verbatim>\<open>QuoteJSONString\<close>.
\<close>

definition hexChar :: "nat \<Rightarrow> char" where
  "hexChar d = ''0123456789abcdef'' ! d"

definition quoteJSONChar :: "char \<Rightarrow> string" where
  "quoteJSONChar c =
     (let n = codeUnit c in
      if n = 8 then [CHR 0x5C, CHR ''b'']
      else if n = 9 then [CHR 0x5C, CHR ''t'']
      else if n = 10 then [CHR 0x5C, CHR ''n'']
      else if n = 12 then [CHR 0x5C, CHR ''f'']
      else if n = 13 then [CHR 0x5C, CHR ''r'']
      else if n = 34 then [CHR 0x5C, CHR 0x22]
      else if n = 92 then [CHR 0x5C, CHR 0x5C]
      else if n < 32 then [CHR 0x5C, CHR ''u'', CHR ''0'', CHR ''0'', hexChar (n div 16), hexChar (n mod 16)]
      else [c])"

definition quoteJSONString :: "string \<Rightarrow> string" where
  "quoteJSONString s = [CHR 0x22] @ concat (map quoteJSONChar s) @ [CHR 0x22]"

definition JSON_stringify :: "sample \<Rightarrow> string" where
  "JSON_stringify sample =
     ''{'' @ join '','' (map (\<lambda>(k, v). quoteJSONString k @ '':'' @ quoteJSONString v) sample) @ ''}''"

section \<open>The report model (\<^verbatim>\<open>types/audit.ts\<close>)\<close>

text \<open>
  A report is received from the audit engine as JSON and conforms to
  \<^verbatim>\<open>interface AuditReport\<close>.  Counts are integers; a percentage is a finite number.
  \<^verbatim>\<open>AuditReportView\<close> reads three properties that the interfaces under \<^verbatim>\<open>types/\<close> do
  not declare: \<^verbatim>\<open>primary_key_result\<close> of a report, which may be absent, with its
  \<^verbatim>\<open>columns\<close>, \<^verbatim>\<open>duplicate_count\<close>, \<^verbatim>\<open>null_count\<close> and \<^verbatim>\<open>sample_rows\<close>, and
  \<^verbatim>\<open>sample_rows\<close> of a missing-value entry.  The view tests \<^verbatim>\<open>sample_rows\<close> of a rule
  result and of a missing-value entry before it reads them, so both may be absent.
\<close>

datatype Status = Ok | Missing | Type_mismatch

datatype Engine = Pandas | Duckdb

record AuditSummary =
  dataset_name_sum :: string
  row_count :: int
  column_count :: int
  created_at :: string
  engine_used :: Engine
  issues_found :: int

record SchemaResult =
  field :: string
  expected_dtype :: DataType
  actual_dtype :: "string option"
  status :: Status
  details :: "string option"

record MissingValueStat =
  column :: string
  missing_count :: int
  missing_pct :: rat
  sample_rows_mv :: "sample list option"

record RuleResult =
  name_rr :: string
  severity_rr :: Severity
  passed :: bool
  failing_rows :: int
  sample_rows_rr :: "sample list option"
  description_rr :: "string option"

record PrimaryKeyResult =
  columns :: "string list"
  duplicate_count :: int
  null_count :: int
  sample_rows_pk :: "sample list"

record AuditReport =
  id_rep :: string
  summary :: AuditSummary
  schema_results :: "SchemaResult list"
  missing_values :: "MissingValueStat list"
  rule_results :: "RuleResult list"
  primary_key_result :: "PrimaryKeyResult option"
  sample_rows_rep :: "sample list"
  config :: AuditConfig
  source_file :: string

fun dtypeString :: "DataType \<Rightarrow> string" where
  "dtypeString DString = ''string''"
| "dtypeString DInteger = ''integer''"
| "dtypeString DFloat = ''float''"
| "dtypeString DBoolean = ''boolean''"
| "dtypeString DDatetime = ''datetime''"
| "dtypeString DCategory = ''category''"

section \<open>The derived issue log and the indicators (\<^verbatim>\<open>AuditReportView\<close>)\<close>

record DerivedIssue =
  rowId :: string
  value_issue :: string
  errorType :: string
  ruleOrColumn :: string
  severity_issue :: Severity

record Indicator =
  label :: string
  detail :: string
  severity_ind :: Severity

text \<open>
  \<^verbatim>\<open>enrichedSample.__line__ ?? "n/a"\<close>.  (\<^verbatim>\<open>__line__\<close> is no member of
  \<^verbatim>\<open>Object.prototype\<close>, so the last case does not arise.)
\<close>

definition lineOf :: "sample \<Rightarrow> string" where
  "lineOf enrichedSample =
     (case getProperty enrichedSample ''__line__'' of
        UndefinedValue \<Rightarrow> ''n/a''
      | StringValue line \<Rightarrow> line
      | PrototypeMember \<Rightarrow> [])"

text \<open>
  \<^verbatim>\<open>!compareIds.a\<close>: an identifier is falsy when it is \<^verbatim>\<open>undefined\<close> or the empty
  string.
\<close>

definition falsy :: "string option \<Rightarrow> bool" where
  "falsy v = (case v of None \<Rightarrow> True | Some s \<Rightarrow> \<not> Boolean s)"

text \<open>
  The three loops of \<^verbatim>\<open>allIssues\<close>.  Each takes the array \<^verbatim>\<open>issues\<close> built so far and
  returns it with the issues that the loop pushes; \<^verbatim>\<open>forEach\<close> is a left fold and
  \<^verbatim>\<open>push\<close> appends one element.
\<close>

definition ruleFailures :: "AuditReport \<Rightarrow> DerivedIssue list \<Rightarrow> DerivedIssue list" where
  "ruleFailures report issues =
     foldl (\<lambda>issues rule.
        if \<not> passed rule \<and> sample_rows_rr rule \<noteq> None then
          foldl (\<lambda>issues sample.
             issues @ [\<lparr>rowId = lineOf sample,
                        value_issue = JSON_stringify sample,
                        errorType = ''Rule Failed'',
                        ruleOrColumn = name_rr rule,
                        severity_issue = severity_rr rule\<rparr>])
            issues (case sample_rows_rr rule of None \<Rightarrow> [] | Some rows \<Rightarrow> rows)
        else issues)
       issues (rule_results report)"

definition missingValues :: "AuditReport \<Rightarrow> DerivedIssue list \<Rightarrow> DerivedIssue list" where
  "missingValues report issues =
     foldl (\<lambda>issues mv.
        if missing_count mv > 0 \<and> sample_rows_mv mv \<noteq> None then
          foldl (\<lambda>issues sample.
             issues @ [\<lparr>rowId = lineOf sample,
                        value_issue = ''NULL / Empty'',
                        errorType = ''Missing Value'',
                        ruleOrColumn = column mv,
                        severity_issue = (if missing_pct mv > 10 then Error else Warning)\<rparr>])
            issues (case sample_rows_mv mv of None \<Rightarrow> [] | Some rows \<Rightarrow> rows)
        else issues)
       issues (missing_values report)"

definition primaryKeyIssues :: "AuditReport \<Rightarrow> DerivedIssue list \<Rightarrow> DerivedIssue list" where
  "primaryKeyIssues report issues =
     (case primary_key_result report of
        None \<Rightarrow> issues
      | Some pk \<Rightarrow>
          (let pkCols = join '', '' (columns pk) in
           foldl (\<lambda>issues sample.
              (let isNull = list_ex (\<lambda>col. notValue (getProperty sample col)) (columns pk) in
               issues @ [\<lparr>rowId = lineOf sample,
                          value_issue = JSON_stringify sample,
                          errorType = (if isNull then ''PK Null'' else ''PK Duplicate''),
                          ruleOrColumn = pkCols,
                          severity_issue = Error\<rparr>]))
             issues (sample_rows_pk pk)))"

text \<open>The comparison function handed to \<^verbatim>\<open>issues.sort\<close>.\<close>

definition compareRowIds :: "(string \<Rightarrow> string \<Rightarrow> int) \<Rightarrow> string \<Rightarrow> string \<Rightarrow> int" where
  "compareRowIds collate idA idB =
     (let rowA = parseInt idA;
          rowB = parseInt idB
      in case (rowA, rowB) of
           (Some rowA, Some rowB) \<Rightarrow> rowA - rowB
         | _ \<Rightarrow> collate idA idB)"

definition compareIssues ::
    "(string \<Rightarrow> string \<Rightarrow> int) \<Rightarrow> DerivedIssue \<Rightarrow> DerivedIssue \<Rightarrow> int" where
  "compareIssues collate a b = compareRowIds collate (rowId a) (rowId b)"

text \<open>The array \<^verbatim>\<open>issues\<close> as it is when the three loops are done, before it is sorted.\<close>

definition emittedIssues :: "AuditReport \<Rightarrow> DerivedIssue list" where
  "emittedIssues report = primaryKeyIssues report (missingValues report (ruleFailures report []))"

definition allIssues ::
    "(string \<Rightarrow> string \<Rightarrow> int) \<Rightarrow> AuditReport option \<Rightarrow> DerivedIssue list" where
  "allIssues collate report =
     (case report of
        None \<Rightarrow> []
      | Some report \<Rightarrow> array_sort (compareIssues collate) (emittedIssues report))"

text \<open>The four loops of \<^verbatim>\<open>issueIndicators\<close>, in the same style.\<close>

definition schemaIndicators :: "AuditReport \<Rightarrow> Indicator list \<Rightarrow> Indicator list" where
  "schemaIndicators report indicators =
     foldl (\<lambda>indicators item.
        if status item = Missing then
          indicators @ [\<lparr>label = ''Missing column'', detail = field item, severity_ind = Error\<rparr>]
        else if status item = Type_mismatch then
          indicators @ [\<lparr>label = ''Type mismatch'',
                          detail = field item @ '': expected '' @ dtypeString (expected_dtype item)
                            @ '', found ''
                            @ (case actual_dtype item of None \<Rightarrow> ''n/a'' | Some t \<Rightarrow> t),
                          severity_ind = Warning\<rparr>]
        else indicators)
       indicators (schema_results report)"

definition missingIndicators :: "AuditReport \<Rightarrow> Indicator list \<Rightarrow> Indicator list" where
  "missingIndicators report indicators =
     foldl (\<lambda>indicators item.
        if missing_count item > 0 then
          indicators @ [\<lparr>label = ''Missing data'',
                          detail = column item @ '': '' @ toFixed1 (missing_pct item) @ ''%'',
                          severity_ind = (if missing_pct item > 10 then Error else Warning)\<rparr>]
        else indicators)
       indicators (missing_values report)"

definition ruleIndicators :: "AuditReport \<Rightarrow> Indicator list \<Rightarrow> Indicator list" where
  "ruleIndicators report indicators =
     foldl (\<lambda>indicators rule.
        if \<not> passed rule then
          indicators @ [\<lparr>label = ''Rule failed'',
                          detail = name_rr rule @ '' ('' @ Number_toString (failing_rows rule)
                            @ '' rows)'',
                          severity_ind = severity_rr rule\<rparr>]
        else indicators)
       indicators (rule_results report)"

definition primaryKeyIndicators :: "AuditReport \<Rightarrow> Indicator list \<Rightarrow> Indicator list" where
  "primaryKeyIndicators report indicators =
     (case primary_key_result report of
        None \<Rightarrow> indicators
      | Some pk \<Rightarrow>
          (let indicators =
                 (if duplicate_count pk > 0 then
                    indicators @ [\<lparr>label = ''PK duplicate'',
                                    detail = Number_toString (duplicate_count pk) @ '' rows'',
                                    severity_ind = Error\<rparr>]
                  else indicators)
           in if null_count pk > 0 then
                indicators @ [\<lparr>label = ''PK null'',
                                detail = Number_toString (null_count pk) @ '' rows'',
                                severity_ind = Error\<rparr>]
              else indicators))"

definition issueIndicators :: "AuditReport option \<Rightarrow> Indicator list" where
  "issueIndicators report =
     (case report of
        None \<Rightarrow> []
      | Some report \<Rightarrow>
          primaryKeyIndicators report
            (ruleIndicators report (missingIndicators report (schemaIndicators report []))))"

section \<open>Comparing two reports (\<^verbatim>\<open>ComparisonView\<close>)\<close>

text \<open>
  The state of the component: the two selected identifiers (\<open>None\<close> while a selector
  shows its placeholder), the pair of reports last compared, and the message shown to
  the operator (held by the page, set through \<^verbatim>\<open>setMessage\<close>).
\<close>

record ComparisonState =
  compareIds_a :: "string option"
  compareIds_b :: "string option"
  comparison :: "(AuditReport \<times> AuditReport) option"
  message :: string

text \<open>
  \<^verbatim>\<open>handleCompare\<close>.  \<^verbatim>\<open>fetchJSON\<close> is the gateway: it returns the report stored under
  a path, or throws an \<^verbatim>\<open>Error\<close> with a message (\<open>Inl\<close>).  The first branch is the
  early \<^verbatim>\<open>return\<close> after the message that rejects the selection; \<^verbatim>\<open>!compareIds.a\<close> holds
  for \<^verbatim>\<open>undefined\<close> and for the empty string.  \<^verbatim>\<open>Promise.all\<close> rejects as soon as one
  request fails; when both fail, the message of the first request is kept here.
\<close>

definition handleCompare ::
    "(string \<Rightarrow> string + AuditReport) \<Rightarrow> ComparisonState \<Rightarrow> ComparisonState" where
  "handleCompare fetchJSON st =
     (if falsy (compareIds_a st) \<or> falsy (compareIds_b st) \<or> compareIds_a st = compareIds_b st
      then st\<lparr>message := ''Choose two different reports to compare.''\<rparr>
      else
        (case fetchJSON (''/reports/'' @ the (compareIds_a st)) of
           Inl error \<Rightarrow> st\<lparr>message := ''Comparison failed: '' @ error\<rparr>
         | Inr reportA \<Rightarrow>
             (case fetchJSON (''/reports/'' @ the (compareIds_b st)) of
                Inl error \<Rightarrow> st\<lparr>message := ''Comparison failed: '' @ error\<rparr>
              | Inr reportB \<Rightarrow> st\<lparr>comparison := Some (reportA, reportB)\<rparr>)))"

text \<open>
  The delta that the component renders once a comparison is there:
  \<^verbatim>\<open>comparison.b.summary.issues_found - comparison.a.summary.issues_found\<close>.
\<close>

definition delta :: "ComparisonState \<Rightarrow> int option" where
  "delta st =
     (case comparison st of
        None \<Rightarrow> None
      | Some (a, b) \<Rightarrow> Some (issues_found (summary b) - issues_found (summary a)))"

section \<open>Notions used to state the properties\<close>

text \<open>
  The order that the comparison function induces on row identifiers, under a
  collation: \<open>idA\<close> may stand before \<open>idB\<close>.
\<close>

definition rowIdOrdered :: "(string \<Rightarrow> string \<Rightarrow> int) \<Rightarrow> string \<Rightarrow> string \<Rightarrow> bool" where
  "rowIdOrdered collate idA idB = (compareRowIds collate idA idB \<le> 0)"

text \<open>
  A log whose neighbouring issues are in that order, and a log in which every issue
  and every later issue are.
\<close>

definition neighboursOrdered :: "(string \<Rightarrow> string \<Rightarrow> int) \<Rightarrow> DerivedIssue list \<Rightarrow> bool" where
  "neighboursOrdered collate issues =
     successively (\<lambda>a b. rowIdOrdered collate (rowId a) (rowId b)) issues"

definition issueLogSorted :: "(string \<Rightarrow> string \<Rightarrow> int) \<Rightarrow> DerivedIssue list \<Rightarrow> bool" where
  "issueLogSorted collate issues =
     sorted_wrt (\<lambda>a b. rowIdOrdered collate (rowId a) (rowId b)) issues"

text \<open>
  The comparison function is a consistent order on a list of row identifiers when
  \<open>rowIdOrdered\<close> is transitive on them.
\<close>

definition rowIdsConsistent :: "(string \<Rightarrow> string \<Rightarrow> int) \<Rightarrow> string list \<Rightarrow> bool" where
  "rowIdsConsistent collate ids =
     (\<forall>a\<in>set ids. \<forall>b\<in>set ids. \<forall>c\<in>set ids.
        rowIdOrdered collate a b \<and> rowIdOrdered collate b c \<longrightarrow> rowIdOrdered collate a c)"

text \<open>
  The row identifiers that the engine attaches and the view substitutes: a line number
  written in decimal digits, or \<^verbatim>\<open>n/a\<close>.
\<close>

definition isDecimalDigit :: "char \<Rightarrow> bool" where
  "isDecimalDigit c = (48 \<le> codeUnit c \<and> codeUnit c \<le> 57)"

definition isLineNumber :: "string \<Rightarrow> bool" where
  "isLineNumber s = (s \<noteq> [] \<and> list_all isDecimalDigit s)"

definition plainRowId :: "string \<Rightarrow> bool" where
  "plainRowId s = (s = ''n/a'' \<or> isLineNumber s)"

text \<open>
  The error taxonomy of the specification, and \<^verbatim>\<open>update_schema_field\<close> as the
  specification words it: the partial attributes are merged into the field at the
  index, and an index out of bounds fails with \<open>IndexOutOfRange\<close>.
\<close>

datatype error = TransportError | ValidationError | IndexOutOfRange | NotFound


text \<open>
  Inputs for the examples: the configuration with which the page starts, and a report
  whose sections are all empty.
\<close>

definition initialConfig :: AuditConfig where
  "initialConfig = \<lparr>dataset_name = ''uploaded_dataset'', primary_key = Some [],
     schema = [], rules = []\<rparr>"

definition emptyReport :: AuditReport where
  "emptyReport = \<lparr>id_rep = ''r1'',
     summary = \<lparr>dataset_name_sum = ''uploaded_dataset'', row_count = 0, column_count = 0,
       created_at = ''2024-01-01T00:00:00'', engine_used = Pandas, issues_found = 0\<rparr>,
     schema_results = [], missing_values = [], rule_results = [],
     primary_key_result = None, sample_rows_rep = [], config = initialConfig,
     source_file = ''data.csv''\<rparr>"

definition failedRule :: "string \<Rightarrow> sample list option \<Rightarrow> RuleResult" where
  "failedRule n rows = \<lparr>name_rr = n, severity_rr = Warning, passed = False, failing_rows = 3,
     sample_rows_rr = rows, description_rr = None\<rparr>"

text \<open>
  A report with a failed rule whose three sample rows carry the row identifiers
  \<^verbatim>\<open>"5"\<close>, \<^verbatim>\<open>"/"\<close> and \<^verbatim>\<open>" 7"\<close>, and a missing-value entry with a sample row \<^verbatim>\<open>"5"\<close>;
  and a report whose row identifiers are line numbers and \<^verbatim>\<open>n/a\<close>, spread over a failed
  rule and a missing-value entry.
\<close>

definition cyclicReport :: AuditReport where
  "cyclicReport = emptyReport\<lparr>
     rule_results := [failedRule ''positive'' (Some [[(''__line__'', ''5'')],
                                                      [(''__line__'', ''/'')],
                                                      [(''__line__'', '' 7'')]])],
     missing_values := [\<lparr>column = ''age'', missing_count = 1, missing_pct = 5,
                         sample_rows_mv = Some [[(''__line__'', ''5'')]]\<rparr>]\<rparr>"

definition linesReport :: AuditReport where
  "linesReport = emptyReport\<lparr>
     rule_results := [failedRule ''positive'' (Some [[(''__line__'', ''10'')], [(''age'', ''-1'')]])],
     missing_values := [\<lparr>column = ''age'', missing_count = 2, missing_pct = 15,
                         sample_rows_mv = Some [[(''__line__'', ''9'')], [(''__line__'', ''10'')]]\<rparr>]\<rparr>"

definition missingColumn :: SchemaResult where
  "missingColumn = \<lparr>field = ''id'', expected_dtype = DInteger, actual_dtype = None,
     status = Missing, details = None\<rparr>"

text \<open>
  A report with a primary-key result on the columns \<^verbatim>\<open>id\<close> and \<^verbatim>\<open>region\<close>: the first
  sample row has both values, the second an empty \<^verbatim>\<open>region\<close>, the third no \<^verbatim>\<open>id\<close>.
  A report whose primary key is a column named \<^verbatim>\<open>constructor\<close>, with a sample row
  that has no value for it.  A report with two missing-value entries, of 15 and of 5
  percent.  A report whose only failed rule has no sample rows.
\<close>

definition keyReport :: AuditReport where
  "keyReport = emptyReport\<lparr>primary_key_result := Some
     \<lparr>columns = [''id'', ''region''], duplicate_count = 2, null_count = 2,
      sample_rows_pk =
        [[(''__line__'', ''4''), (''id'', ''7''), (''region'', ''eu'')],
         [(''__line__'', ''2''), (''id'', ''8''), (''region'', '''')],
         [(''region'', ''us'')]]\<rparr>\<rparr>"

definition constructorReport :: AuditReport where
  "constructorReport = emptyReport\<lparr>primary_key_result := Some
     \<lparr>columns = [''constructor''], duplicate_count = 0, null_count = 1,
      sample_rows_pk = [[(''__line__'', ''4''), (''amount'', ''12'')]]\<rparr>\<rparr>"

definition missingReport :: AuditReport where
  "missingReport = emptyReport\<lparr>missing_values :=
     [\<lparr>column = ''age'', missing_count = 3, missing_pct = 15,
       sample_rows_mv = Some [[(''__line__'', ''8'')]]\<rparr>,
      \<lparr>column = ''city'', missing_count = 1, missing_pct = 5,
       sample_rows_mv = Some [[(''__line__'', ''3'')]]\<rparr>]\<rparr>"

definition unsampledReport :: AuditReport where
  "unsampledReport = emptyReport\<lparr>rule_results := [failedRule ''positive'' None]\<rparr>"

text \<open>
  A partial field that only names a column, as the \<^verbatim>\<open>onChange\<close> handler of the name
  input passes it, a field as \<^verbatim>\<open>addSchemaField\<close> creates it, a configuration with
  that field and one rule, and the configuration that a write at position 3 makes of
  it, with empty slots at the positions 1 and 2.
\<close>

definition nameOnly :: SchemaField where
  "nameOnly = emptySchemaField\<lparr>name_sf := Some ''age''\<rparr>"

definition field1 :: SchemaField where
  "field1 = emptySchemaField\<lparr>name_sf := Some ''field_1'', dtype := Some DString,
     nullable := Some True\<rparr>"

definition oneFieldConfig :: AuditConfig where
  "oneFieldConfig = addRule (addSchemaField initialConfig)"

definition sparseConfig :: AuditConfig where
  "sparseConfig = updateSchemaField 3 nameOnly oneFieldConfig"

text \<open>
  Two stored reports with 5 and with 3 issues, a gateway that serves them under the
  identifiers \<^verbatim>\<open>a\<close> and \<^verbatim>\<open>b\<close>, and the state of the comparison view before a selection.
\<close>

definition reportA :: AuditReport where
  "reportA = emptyReport\<lparr>id_rep := ''a'', summary := (summary emptyReport)\<lparr>issues_found := 5\<rparr>\<rparr>"

definition reportB :: AuditReport where
  "reportB = emptyReport\<lparr>id_rep := ''b'', summary := (summary emptyReport)\<lparr>issues_found := 3\<rparr>\<rparr>"

definition storedReports :: "string \<Rightarrow> string + AuditReport" where
  "storedReports path =
     (if path = ''/reports/a'' then Inr reportA
      else if path = ''/reports/b'' then Inr reportB
      else Inl ''Report not found'')"

definition initialComparison :: ComparisonState where
  "initialComparison = \<lparr>compareIds_a = None, compareIds_b = None, comparison = None,
     message = []\<rparr>"

section \<open>Sorting with a comparison function\<close>

lemma countRun_le: "countRun c d p xs \<le> length xs"
  by (induction xs arbitrary: p) (auto simp: Let_def)

lemma mset_take_drop: "mset (take n w) + mset (drop n w) = mset w"
proof -
  have "mset (take n w) + mset (drop n w) = mset (take n w @ drop n w)"
    by (simp only: mset_append)
  also have "\<dots> = mset w" by (simp only: append_take_drop_id)
  finally show ?thesis .
qed

lemma mset_reverse_run: "mset (rev (take n w) @ drop n w) = mset w"
  by (simp add: mset_take_drop)

lemma mset_insert_at: "mset (take k a @ p # drop k a) = add_mset p (mset a)"
  by (simp add: mset_take_drop)

lemma countAndMakeRun_mset: "mset (snd (countAndMakeRun c xs)) = mset xs"
proof (cases xs)
  case Nil
  then show ?thesis by simp
next
  case (Cons a ys)
  show ?thesis
  proof (cases ys)
    case Nil
    with Cons show ?thesis by simp
  next
    case (Cons b zs)
    show ?thesis
      unfolding \<open>xs = a # ys\<close> Cons countAndMakeRun.simps Let_def
      by (cases "c b a < 0") (simp_all only: if_True if_False snd_conv mset_reverse_run)
  qed
qed

lemma countAndMakeRun_le: "fst (countAndMakeRun c xs) \<le> length xs"
proof (cases xs)
  case Nil
  then show ?thesis by simp
next
  case (Cons a ys)
  show ?thesis
  proof (cases ys)
    case Nil
    with Cons show ?thesis by simp
  next
    case (Cons b zs)
    show ?thesis
      unfolding \<open>xs = a # ys\<close> Cons
      using countRun_le [of c True b zs] countRun_le [of c False b zs] by (simp add: Let_def)
  qed
qed

lemma mset_binaryInsertionSort: "mset (binaryInsertionSort c a rest) = mset a + mset rest"
proof (induction rest arbitrary: a)
  case Nil
  then show ?case by simp
next
  case (Cons p rest)
  show ?case
    unfolding binaryInsertionSort.simps Let_def Cons.IH mset_insert_at by simp
qed

lemma mset_array_sort: "mset (array_sort c xs) = mset xs"
proof (cases "length xs < 2")
  case True
  then show ?thesis by (simp add: array_sort_def)
next
  case False
  obtain n w where r: "countAndMakeRun c xs = (n, w)" by (cases "countAndMakeRun c xs")
  have w: "mset w = mset xs" using countAndMakeRun_mset [of c xs] r by simp
  have "mset (array_sort c xs) = mset (take n w) + mset (drop n w)"
    using False by (simp add: array_sort_def r mset_binaryInsertionSort)
  also have "\<dots> = mset w" by (rule mset_take_drop)
  finally show ?thesis by (simp only: w)
qed

lemma set_array_sort: "set (array_sort c xs) = set xs"
  using mset_array_sort [of c xs] by (rule mset_eq_setD)

text \<open>
  The run that \<^verbatim>\<open>CountAndMakeRun\<close> finds: each element and the next are ascending, or
  each element and the next are strictly descending.
\<close>

lemma countRun_ascending:
  "successively (\<lambda>a b. 0 \<le> c b a) (p # take (countRun c False p xs) xs)"
  by (induction xs arbitrary: p) (auto simp: Let_def)

lemma countRun_descending:
  "successively (\<lambda>a b. c b a < 0) (p # take (countRun c True p xs) xs)"
  by (induction xs arbitrary: p) (auto simp: Let_def)

lemma countAndMakeRun_cases:
  assumes "xs = a # b # zs"
  obtains (ascending) k where "\<not> c b a < 0" "countAndMakeRun c xs = (2 + k, xs)"
      "successively (\<lambda>a b. 0 \<le> c b a) (take (2 + k) xs)"
  | (descending) k where "c b a < 0" "2 + k \<le> length xs"
      "countAndMakeRun c xs = (2 + k, rev (take (2 + k) xs) @ drop (2 + k) xs)"
      "successively (\<lambda>a b. c b a < 0) (take (2 + k) xs)"
proof (cases "c b a < 0")
  case False
  let ?k = "countRun c False b zs"
  have "countAndMakeRun c xs = (2 + ?k, xs)"
    using False assms by (simp add: Let_def)
  moreover have "successively (\<lambda>a b. 0 \<le> c b a) (take (2 + ?k) xs)"
    using countRun_ascending [of c b zs] False assms by simp
  ultimately show ?thesis using False ascending by blast
next
  case True
  let ?k = "countRun c True b zs"
  have "countAndMakeRun c xs = (2 + ?k, rev (take (2 + ?k) xs) @ drop (2 + ?k) xs)"
    using True assms by (simp add: Let_def)
  moreover have "successively (\<lambda>a b. c b a < 0) (take (2 + ?k) xs)"
    using countRun_descending [of c b zs] True assms by simp
  moreover have "2 + ?k \<le> length xs"
    using countRun_le [of c True b zs] assms by simp
  ultimately show ?thesis using True descending by blast
qed

text \<open>
  The binary search returns a position behind an element that the pivot does not
  precede, and before an element that the pivot precedes.
\<close>

lemma findInsertionPoint_bounds:
  assumes "left \<le> right"
  shows "left \<le> findInsertionPoint c p a left right
     \<and> findInsertionPoint c p a left right \<le> right
     \<and> (left < findInsertionPoint c p a left right \<longrightarrow>
          0 \<le> c p (a ! (findInsertionPoint c p a left right - 1)))
     \<and> (findInsertionPoint c p a left right < right \<longrightarrow>
          c p (a ! findInsertionPoint c p a left right) < 0)"
  using assms
proof (induction c p a left right rule: findInsertionPoint.induct)
  case (1 c p a left right)
  show ?case
  proof (cases "left < right")
    case False
    then have "findInsertionPoint c p a left right = left"
      by (subst findInsertionPoint.simps) simp
    with "1.prems" False show ?thesis by simp
  next
    case lr: True
    define mid where "mid = left + (right - left) div 2"
    have mid: "left \<le> mid" "mid < right" using lr unfolding mid_def by simp_all
    show ?thesis
    proof (cases "c p (a ! mid) < 0")
      case True
      have eq: "findInsertionPoint c p a left right = findInsertionPoint c p a left mid"
        using lr True
        by (simp add: findInsertionPoint.simps [of c p a left right] mid_def Let_def)
      have ih: "left \<le> findInsertionPoint c p a left mid
         \<and> findInsertionPoint c p a left mid \<le> mid
         \<and> (left < findInsertionPoint c p a left mid \<longrightarrow>
              0 \<le> c p (a ! (findInsertionPoint c p a left mid - 1)))
         \<and> (findInsertionPoint c p a left mid < mid \<longrightarrow>
              c p (a ! findInsertionPoint c p a left mid) < 0)"
        using "1.IH"(1) [OF lr mid_def refl] True mid(1) by simp
      define k where "k = findInsertionPoint c p a left mid"
      from ih have "left \<le> k" "k \<le> mid" "left < k \<longrightarrow> 0 \<le> c p (a ! (k - 1))"
        "k < mid \<longrightarrow> c p (a ! k) < 0"
        unfolding k_def by blast+
      moreover from this True have "k < right \<longrightarrow> c p (a ! k) < 0"
        by (cases "k = mid") auto
      ultimately show ?thesis
        unfolding eq k_def [symmetric] using mid(2) by simp
    next
      case False
      have eq: "findInsertionPoint c p a left right = findInsertionPoint c p a (mid + 1) right"
        using lr False
        by (simp add: findInsertionPoint.simps [of c p a left right] mid_def Let_def)
      have ih: "mid + 1 \<le> findInsertionPoint c p a (mid + 1) right
         \<and> findInsertionPoint c p a (mid + 1) right \<le> right
         \<and> (mid + 1 < findInsertionPoint c p a (mid + 1) right \<longrightarrow>
              0 \<le> c p (a ! (findInsertionPoint c p a (mid + 1) right - 1)))
         \<and> (findInsertionPoint c p a (mid + 1) right < right \<longrightarrow>
              c p (a ! findInsertionPoint c p a (mid + 1) right) < 0)"
        using "1.IH"(2) [OF lr mid_def refl] False mid(2) by simp
      define k where "k = findInsertionPoint c p a (mid + 1) right"
      from ih have "mid + 1 \<le> k" "k \<le> right" "mid + 1 < k \<longrightarrow> 0 \<le> c p (a ! (k - 1))"
        "k < right \<longrightarrow> c p (a ! k) < 0"
        unfolding k_def by blast+
      moreover from this False have "left < k \<longrightarrow> 0 \<le> c p (a ! (k - 1))"
        by (cases "k = mid + 1") auto
      ultimately show ?thesis
        unfolding eq k_def [symmetric] using mid(1) by simp
    qed
  qed
qed

text \<open>The steps of the binary search, one equation for each branch.\<close>

lemma findInsertionPoint_stop:
  "\<not> left < right \<Longrightarrow> findInsertionPoint c p a left right = left"
  by (subst findInsertionPoint.simps) simp

lemma findInsertionPoint_left:
  "left < right \<Longrightarrow> c p (a ! (left + (right - left) div 2)) < 0 \<Longrightarrow>
     findInsertionPoint c p a left right
       = findInsertionPoint c p a left (left + (right - left) div 2)"
  by (subst findInsertionPoint.simps) (simp add: Let_def)

lemma findInsertionPoint_right:
  "left < right \<Longrightarrow> \<not> c p (a ! (left + (right - left) div 2)) < 0 \<Longrightarrow>
     findInsertionPoint c p a left right
       = findInsertionPoint c p a (left + (right - left) div 2 + 1) right"
  by (subst findInsertionPoint.simps) (simp add: Let_def)

lemma insert_keeps_successively:
  assumes "successively R a" "k \<le> length a"
    and "0 < k \<Longrightarrow> R (a ! (k - 1)) p"
    and "k < length a \<Longrightarrow> R p (a ! k)"
  shows "successively R (take k a @ p # drop k a)"
proof -
  from assms(1) have "successively R (take k a @ drop k a)" by simp
  then have t: "successively R (take k a)" and d: "successively R (drop k a)"
    unfolding successively_append_iff by blast+
  have pd: "successively R (p # drop k a)"
  proof (cases "k < length a")
    case True
    then have "hd (drop k a) = a ! k" by (rule hd_drop_conv_nth)
    with assms(4) [OF True] d show ?thesis by (simp add: successively_Cons)
  next
    case False
    then show ?thesis by simp
  qed
  have l: "take k a = [] \<or> R (last (take k a)) p"
  proof (cases "k = 0")
    case True
    then show ?thesis by simp
  next
    case False
    then have ne: "take k a \<noteq> []" using assms(2) by auto
    have "last (take k a) = take k a ! (length (take k a) - 1)"
      using ne by (rule last_conv_nth)
    also have "\<dots> = a ! (k - 1)" using assms(2) False by simp
    finally show ?thesis using assms(3) False by simp
  qed
  from t pd l show ?thesis by (simp add: successively_append_iff)
qed

lemma insertion_ordered:
  assumes W: "\<And>a b. 0 \<le> c b a \<Longrightarrow> c a b \<le> (0::int)"
    and "successively (\<lambda>a b. c a b \<le> 0) a"
  shows "successively (\<lambda>a b. c a b \<le> 0)
     (take (findInsertionPoint c p a 0 (length a)) a @ p
        # drop (findInsertionPoint c p a 0 (length a)) a)"
proof -
  define k where "k = findInsertionPoint c p a 0 (length a)"
  have "0 \<le> length a" by simp
  from findInsertionPoint_bounds [OF this, of c p a]
  have k: "k \<le> length a" "0 < k \<longrightarrow> 0 \<le> c p (a ! (k - 1))" "k < length a \<longrightarrow> c p (a ! k) < 0"
    unfolding k_def by blast+
  have "successively (\<lambda>a b. c a b \<le> 0) (take k a @ p # drop k a)"
  proof (rule insert_keeps_successively [OF assms(2) k(1)])
    assume "0 < k"
    with k(2) have "0 \<le> c p (a ! (k - 1))" by blast
    then show "c (a ! (k - 1)) p \<le> 0" by (rule W)
  next
    assume "k < length a"
    with k(3) show "c p (a ! k) \<le> 0" by simp
  qed
  then show ?thesis unfolding k_def .
qed

lemma binaryInsertionSort_ordered:
  assumes W: "\<And>a b. 0 \<le> c b a \<Longrightarrow> c a b \<le> (0::int)"
  shows "successively (\<lambda>a b. c a b \<le> 0) a \<Longrightarrow>
     successively (\<lambda>a b. c a b \<le> 0) (binaryInsertionSort c a rest)"
proof (induction rest arbitrary: a)
  case Nil
  then show ?case by simp
next
  case (Cons p rest)
  have "successively (\<lambda>a b. c a b \<le> 0)
     (take (findInsertionPoint c p a 0 (length a)) a @ p
        # drop (findInsertionPoint c p a 0 (length a)) a)"
    using W Cons.prems by (rule insertion_ordered)
  then show ?case
    unfolding binaryInsertionSort.simps Let_def by (rule Cons.IH)
qed

lemma run_ordered:
  assumes W: "\<And>a b. 0 \<le> c b a \<Longrightarrow> c a b \<le> (0::int)"
  shows "successively (\<lambda>a b. c a b \<le> 0)
     (take (fst (countAndMakeRun c xs)) (snd (countAndMakeRun c xs)))"
proof (cases xs)
  case Nil
  then show ?thesis by simp
next
  case (Cons a ys)
  show ?thesis
  proof (cases ys)
    case Nil
    with Cons show ?thesis by simp
  next
    case ys: (Cons b zs)
    from Cons ys have xs: "xs = a # b # zs" by simp
    then show ?thesis
    proof (cases rule: countAndMakeRun_cases [where c = c])
      case (ascending k)
      from ascending(3) have "successively (\<lambda>a b. c a b \<le> 0) (take (2 + k) xs)"
        by (rule successively_mono) (rule W)
      then show ?thesis unfolding ascending(2) by simp
    next
      case (descending k)
      from descending(4) have "successively (\<lambda>a b. c a b < 0) (rev (take (2 + k) xs))"
        by simp
      then have "successively (\<lambda>a b. c a b \<le> 0) (rev (take (2 + k) xs))"
        by (rule successively_mono) simp
      then show ?thesis unfolding descending(3) using descending(2) by simp
    qed
  qed
qed

lemma array_sort_ordered:
  assumes W: "\<And>a b. 0 \<le> c b a \<Longrightarrow> c a b \<le> (0::int)"
  shows "successively (\<lambda>a b. c a b \<le> 0) (array_sort c xs)"
proof (cases "length xs < 2")
  case True
  then have "xs = [] \<or> (\<exists>x. xs = [x])"
    by (cases xs; cases "tl xs") auto
  then show ?thesis by (auto simp: array_sort_def)
next
  case False
  obtain n w where r: "countAndMakeRun c xs = (n, w)" by (cases "countAndMakeRun c xs")
  have "successively (\<lambda>a b. c a b \<le> 0) (binaryInsertionSort c (take n w) (drop n w))"
  proof (rule binaryInsertionSort_ordered)
    show "\<And>a b. 0 \<le> c b a \<Longrightarrow> c a b \<le> 0" by (rule W)
    show "successively (\<lambda>a b. c a b \<le> 0) (take n w)"
      using run_ordered [of c xs, OF W] r by simp
  qed
  with False r show ?thesis by (simp add: array_sort_def)
qed
text \<open>
  When the comparison function is transitive on the elements, every element of the
  sorted array and every later one are in order.
\<close>

lemma array_sort_sorted:
  assumes W: "\<And>a b. 0 \<le> c b a \<Longrightarrow> c a b \<le> (0::int)"
    and T: "\<forall>x\<in>set xs. \<forall>y\<in>set xs. \<forall>z\<in>set xs. c x y \<le> 0 \<and> c y z \<le> 0 \<longrightarrow> c x z \<le> 0"
  shows "sorted_wrt (\<lambda>a b. c a b \<le> 0) (array_sort c xs)"
proof -
  have "successively (\<lambda>a b. c a b \<le> 0) (array_sort c xs)
      \<longleftrightarrow> sorted_wrt (\<lambda>a b. c a b \<le> 0) (array_sort c xs)"
  proof (rule successively_iff_sorted_wrt_strong)
    fix x y z
    assume "x \<in> set (array_sort c xs)" "y \<in> set (array_sort c xs)" "z \<in> set (array_sort c xs)"
    then have "x \<in> set xs" "y \<in> set xs" "z \<in> set xs" by (simp_all only: set_array_sort)
    moreover assume "c x y \<le> 0" "c y z \<le> 0"
    ultimately show "c x z \<le> 0" using T by blast
  qed
  moreover have "successively (\<lambda>a b. c a b \<le> 0) (array_sort c xs)"
    by (rule array_sort_ordered) (rule W)
  ultimately show ?thesis by blast
qed

text \<open>
  Stability.  \<open>P\<close> is a class of elements that the comparison function takes for equal.
  The elements of a strictly descending run are pairwise different for the comparison
  function, so at most one is in \<open>P\<close>, and reversing the run keeps the order of the
  elements of \<open>P\<close>.  An element of \<open>P\<close> is inserted behind the elements of \<open>P\<close> that
  are in the sorted part.
\<close>

lemma descending_transitive:
  assumes A: "\<And>a b. (c a b < 0) = (0 < c b (a::'a))"
    and T: "\<forall>x\<in>S. \<forall>y\<in>S. \<forall>z\<in>S. c x y \<le> 0 \<and> c y z \<le> 0 \<longrightarrow> c x z \<le> (0::int)"
    and S: "x \<in> S" "y \<in> S" "z \<in> S"
    and d: "c y x < 0" "c z y < 0"
  shows "c z x < 0"
proof (rule ccontr)
  assume "\<not> c z x < 0"
  then have "\<not> 0 < c x z" using A [of z x] by simp
  then have "c x z \<le> 0" by simp
  moreover from d(2) have "c z y \<le> 0" by simp
  ultimately have "c x y \<le> 0" using T S by blast
  moreover from d(1) have "0 < c x y" using A [of y x] by simp
  ultimately show False by simp
qed

lemma filter_take_drop: "filter P (take k a) @ filter P (drop k a) = filter P a"
  by (simp only: filter_append [symmetric] append_take_drop_id)

lemma reverse_run_filter:
  assumes E: "\<And>x y. P x \<Longrightarrow> P y \<Longrightarrow> c x y = (0::int)"
  shows "sorted_wrt (\<lambda>a b. c b a < 0) r \<Longrightarrow> filter P (rev r) = filter P r"
proof (induction r)
  case Nil
  then show ?case by simp
next
  case (Cons x r)
  then have ih: "filter P (rev r) = filter P r" and lt: "\<forall>y\<in>set r. c y x < 0" by simp_all
  show ?case
  proof (cases "P x")
    case True
    have "\<forall>y\<in>set r. \<not> P y"
    proof
      fix y assume "y \<in> set r"
      with lt have "c y x < 0" by blast
      then show "\<not> P y" using E [of y x] True by auto
    qed
    then have "filter P r = []" by (simp add: filter_empty_conv)
    with ih True show ?thesis by simp
  next
    case False
    with ih show ?thesis by simp
  qed
qed

lemma insertion_filter:
  assumes A: "\<And>a b. (c a b < 0) = (0 < c b (a::'a))"
    and T: "\<forall>x\<in>S. \<forall>y\<in>S. \<forall>z\<in>S. c x y \<le> 0 \<and> c y z \<le> 0 \<longrightarrow> c x z \<le> (0::int)"
    and E: "\<And>x y. P x \<Longrightarrow> P y \<Longrightarrow> c x y = 0"
    and S: "set a \<subseteq> S" "p \<in> S"
    and srt: "sorted_wrt (\<lambda>a b. c a b \<le> 0) a"
    and k: "k < length a \<longrightarrow> c p (a ! k) < 0"
  shows "filter P (take k a @ p # drop k a) = filter P a @ filter P [p]"
proof (cases "P p")
  case False
  then show ?thesis by (simp add: filter_take_drop)
next
  case True
  have none: "\<forall>y\<in>set (drop k a). \<not> P y"
  proof
    fix y assume y: "y \<in> set (drop k a)"
    then have kl: "k < length a" by (cases "k < length a") auto
    with k have pk: "c p (a ! k) < 0" by blast
    have d: "drop k a = a ! k # drop (Suc k) a"
      using kl by (simp add: Cons_nth_drop_Suc)
    have "sorted_wrt (\<lambda>a b. c a b \<le> 0) (drop k a)"
      using srt by (rule sorted_wrt_drop)
    then have later: "\<forall>z\<in>set (drop (Suc k) a). c (a ! k) z \<le> 0"
      unfolding d by simp
    show "\<not> P y"
    proof
      assume Py: "P y"
      from y d have "y = a ! k \<or> y \<in> set (drop (Suc k) a)" by auto
      then show False
      proof
        assume "y = a ! k"
        with pk E [OF True Py] show False by simp
      next
        assume "y \<in> set (drop (Suc k) a)"
        with later have 1: "c (a ! k) y \<le> 0" by blast
        have 2: "c y p \<le> 0" using E [OF Py True] by simp
        have "a ! k \<in> S" "y \<in> S" using kl y S(1) by (auto dest: in_set_dropD)
        with 1 2 S(2) T have "c (a ! k) p \<le> 0" by blast
        moreover from pk have "0 < c (a ! k) p" using A [of p "a ! k"] by simp
        ultimately show False by simp
      qed
    qed
  qed
  then have e: "filter P (drop k a) = []" by (simp add: filter_empty_conv)
  have "filter P a = filter P (take k a)"
    using filter_take_drop [of P k a] e by simp
  with e True show ?thesis by simp
qed

lemma binaryInsertionSort_filter:
  assumes A: "\<And>a b. (c a b < 0) = (0 < c b (a::'a))"
    and T: "\<forall>x\<in>S. \<forall>y\<in>S. \<forall>z\<in>S. c x y \<le> 0 \<and> c y z \<le> 0 \<longrightarrow> c x z \<le> (0::int)"
    and E: "\<And>x y. P x \<Longrightarrow> P y \<Longrightarrow> c x y = 0"
  shows "set a \<union> set rest \<subseteq> S \<Longrightarrow> sorted_wrt (\<lambda>a b. c a b \<le> 0) a \<Longrightarrow>
     filter P (binaryInsertionSort c a rest) = filter P a @ filter P rest"
proof (induction rest arbitrary: a)
  case Nil
  then show ?case by simp
next
  case (Cons p rest)
  define k where "k = findInsertionPoint c p a 0 (length a)"
  define a' where "a' = take k a @ p # drop k a"
  have W: "c x y \<le> 0" if "0 \<le> c y x" for x y
    using that A [of y x] by simp
  have "0 \<le> length a" by simp
  from findInsertionPoint_bounds [OF this, of c p a]
  have kb: "k < length a \<longrightarrow> c p (a ! k) < 0"
    unfolding k_def by blast
  have sub: "set a' \<subseteq> S"
  proof
    fix x assume "x \<in> set a'"
    then have "x \<in> set (take k a) \<or> x = p \<or> x \<in> set (drop k a)"
      unfolding a'_def by auto
    then have "x \<in> set a \<or> x = p" by (auto dest: in_set_takeD in_set_dropD)
    with Cons.prems(1) show "x \<in> S" by auto
  qed
  have "successively (\<lambda>a b. c a b \<le> 0) a"
    using Cons.prems(2) by (rule successively_if_sorted_wrt)
  with W have "successively (\<lambda>a b. c a b \<le> 0)
     (take (findInsertionPoint c p a 0 (length a)) a @ p
        # drop (findInsertionPoint c p a 0 (length a)) a)"
    by (rule insertion_ordered)
  then have suc: "successively (\<lambda>a b. c a b \<le> 0) a'"
    unfolding a'_def k_def .
  have "successively (\<lambda>a b. c a b \<le> 0) a' \<longleftrightarrow> sorted_wrt (\<lambda>a b. c a b \<le> 0) a'"
  proof (rule successively_iff_sorted_wrt_strong)
    fix x y z
    assume "x \<in> set a'" "y \<in> set a'" "z \<in> set a'"
    then have "x \<in> S" "y \<in> S" "z \<in> S" using sub by blast+
    moreover assume "c x y \<le> 0" "c y z \<le> 0"
    ultimately show "c x z \<le> 0" using T by blast
  qed
  with suc have srt: "sorted_wrt (\<lambda>a b. c a b \<le> 0) a'" by blast
  have "set a' \<union> set rest \<subseteq> S" using sub Cons.prems(1) by simp
  from Cons.IH [OF this srt]
  have "filter P (binaryInsertionSort c a' rest) = filter P a' @ filter P rest" .
  moreover have "filter P a' = filter P a @ filter P [p]"
    unfolding a'_def
  proof (rule insertion_filter [where S = S and c = c])
    show "\<And>a b. (c a b < 0) = (0 < c b a)" by (rule A)
    show "\<forall>x\<in>S. \<forall>y\<in>S. \<forall>z\<in>S. c x y \<le> 0 \<and> c y z \<le> 0 \<longrightarrow> c x z \<le> 0" by (rule T)
    show "\<And>x y. P x \<Longrightarrow> P y \<Longrightarrow> c x y = 0" by (rule E)
    show "set a \<subseteq> S" "p \<in> S" using Cons.prems(1) by simp_all
    show "sorted_wrt (\<lambda>a b. c a b \<le> 0) a" by (rule Cons.prems(2))
    show "k < length a \<longrightarrow> c p (a ! k) < 0" by (rule kb)
  qed
  ultimately show ?case
    unfolding binaryInsertionSort.simps Let_def k_def [symmetric] a'_def [symmetric] by simp
qed

lemma array_sort_filter:
  assumes A: "\<And>a b. (c a b < 0) = (0 < c b (a::'a))"
    and T: "\<forall>x\<in>set xs. \<forall>y\<in>set xs. \<forall>z\<in>set xs. c x y \<le> 0 \<and> c y z \<le> 0 \<longrightarrow> c x z \<le> (0::int)"
    and E: "\<And>x y. P x \<Longrightarrow> P y \<Longrightarrow> c x y = 0"
  shows "filter P (array_sort c xs) = filter P xs"
proof (cases "length xs < 2")
  case True
  then show ?thesis by (simp add: array_sort_def)
next
  case False
  have W: "c x y \<le> 0" if "0 \<le> c y x" for x y
    using that A [of y x] by simp
  obtain a b zs where xs: "xs = a # b # zs"
    using False by (cases xs; cases "tl xs") auto
  obtain n w where r: "countAndMakeRun c xs = (n, w)" by (cases "countAndMakeRun c xs")
  have w: "mset w = mset xs" using countAndMakeRun_mset [of c xs] r by simp
  then have sw: "set w = set xs" by (rule mset_eq_setD)
  have fw: "filter P w = filter P xs"
    using xs
  proof (cases rule: countAndMakeRun_cases [where c = c])
    case (ascending k)
    with r show ?thesis by simp
  next
    case (descending k)
    have "successively (\<lambda>a b. c b a < 0) (take (2 + k) xs)
        \<longleftrightarrow> sorted_wrt (\<lambda>a b. c b a < 0) (take (2 + k) xs)"
    proof (rule successively_iff_sorted_wrt_strong)
      fix x y z
      assume "x \<in> set (take (2 + k) xs)" "y \<in> set (take (2 + k) xs)"
        "z \<in> set (take (2 + k) xs)"
      then have m: "x \<in> set xs" "y \<in> set xs" "z \<in> set xs" by (auto dest: in_set_takeD)
      assume d: "c y x < 0" "c z y < 0"
      from A T m d show "c z x < 0" by (rule descending_transitive [where c = c])
    qed
    with descending(4) have "sorted_wrt (\<lambda>a b. c b a < 0) (take (2 + k) xs)" by blast
    with E have "filter P (rev (take (2 + k) xs)) = filter P (take (2 + k) xs)"
      by (rule reverse_run_filter)
    then have "filter P (rev (take (2 + k) xs) @ drop (2 + k) xs) = filter P xs"
      by (simp only: filter_append filter_take_drop)
    moreover have "w = rev (take (2 + k) xs) @ drop (2 + k) xs"
      using r unfolding descending(3) by (rule Pair_inject) (rule sym)
    ultimately show ?thesis by (simp only:)
  qed
  have "successively (\<lambda>a b. c a b \<le> 0) (take n w)"
    using run_ordered [of c xs] W r by simp
  moreover have "successively (\<lambda>a b. c a b \<le> 0) (take n w)
      \<longleftrightarrow> sorted_wrt (\<lambda>a b. c a b \<le> 0) (take n w)"
  proof (rule successively_iff_sorted_wrt_strong)
    fix x y z
    assume "x \<in> set (take n w)" "y \<in> set (take n w)" "z \<in> set (take n w)"
    then have "x \<in> set xs" "y \<in> set xs" "z \<in> set xs"
      unfolding sw [symmetric] by (auto dest: in_set_takeD)
    moreover assume "c x y \<le> 0" "c y z \<le> 0"
    ultimately show "c x z \<le> 0" using T by blast
  qed
  ultimately have srt: "sorted_wrt (\<lambda>a b. c a b \<le> 0) (take n w)" by blast
  have "set (take n w) \<union> set (drop n w) \<subseteq> set xs"
    unfolding sw [symmetric] by (auto dest: in_set_takeD in_set_dropD)
  with A T E have "filter P (binaryInsertionSort c (take n w) (drop n w))
      = filter P (take n w) @ filter P (drop n w)"
    using srt by (rule binaryInsertionSort_filter [where c = c])
  also have "\<dots> = filter P w" by (rule filter_take_drop)
  finally show ?thesis using False r fw by (simp add: array_sort_def)
qed
section \<open>The comparison of row identifiers\<close>

lemma codeUnitCompare_refl: "codeUnitCompare a a = 0"
  by (induction a) auto

lemma codeUnitCompare_antisym: "codeUnitCompare a b = - codeUnitCompare b a"
  by (induction a b rule: codeUnitCompare.induct) auto

lemma hostCollation_codeUnitCompare: "hostCollation codeUnitCompare"
  unfolding hostCollation_def
proof (intro conjI allI)
  fix a b
  show "codeUnitCompare a a = 0" by (rule codeUnitCompare_refl)
  show "(codeUnitCompare a b < 0) = (0 < codeUnitCompare b a)"
    using codeUnitCompare_antisym [of a b] by simp
qed

lemma compareRowIds_refl:
  assumes "hostCollation collate"
  shows "compareRowIds collate a a = 0"
proof -
  have "collate a a = 0" using assms unfolding hostCollation_def by blast
  then show ?thesis by (simp add: compareRowIds_def split: option.splits)
qed

lemma compareRowIds_antisym:
  assumes "hostCollation collate"
  shows "(compareRowIds collate a b < 0) = (0 < compareRowIds collate b a)"
proof -
  have "(collate a b < 0) = (0 < collate b a)" using assms unfolding hostCollation_def by blast
  then show ?thesis by (auto simp: compareRowIds_def split: option.splits)
qed

lemma rowIdOrdered_iff:
  "rowIdOrdered collate a b \<longleftrightarrow>
     (case (parseInt a, parseInt b) of
        (Some m, Some n) \<Rightarrow> m \<le> n
      | _ \<Rightarrow> collate a b \<le> 0)"
  by (simp add: rowIdOrdered_def compareRowIds_def split: option.splits)

lemmas parseInt_eval = parseInt_def isWhiteSpace_def codeUnit_def isRadixDigit_def
  digitValue_def mathInt_def toNumber_def

text \<open>
  What \<^verbatim>\<open>parseInt\<close> reads: leading white space and what follows the digits are ignored,
  a prefix \<^verbatim>\<open>0x\<close> makes the digits hexadecimal, and an integer of more than 53 bits is
  rounded.
\<close>

lemma parseInt_examples:
  "parseInt ''12'' = Some 12" "parseInt ''5'' = Some 5" "parseInt '' 7'' = Some 7" "parseInt ''12abc'' = Some 12"
  "parseInt ''0x10'' = Some 16" "parseInt ''-3'' = Some (- 3)"
  "parseInt ''/'' = None" "parseInt ''n/a'' = None" "parseInt [] = None"
  "parseInt ''9007199254740993'' = Some 9007199254740992"
  by (simp_all add: parseInt_eval)
section \<open>The loops as lists\<close>

lemma foldl_push_map: "foldl (\<lambda>acc x. acc @ [g x]) acc xs = acc @ map g xs"
  by (induction xs arbitrary: acc) auto

lemma foldl_append_step:
  assumes "\<And>acc x. f acc x = acc @ g x"
  shows "foldl f acc xs = acc @ concat (map g xs)"
  by (induction xs arbitrary: acc) (simp_all add: assms)

lemma concat_map_Nil_iff: "concat (map g xs) = [] \<longleftrightarrow> (\<forall>x\<in>set xs. g x = [])"
  by (induction xs) auto

lemma ruleFailures_eq:
  "ruleFailures report issues = issues @ concat (map (\<lambda>rule.
      if \<not> passed rule \<and> sample_rows_rr rule \<noteq> None
      then map (\<lambda>sample. \<lparr>rowId = lineOf sample, value_issue = JSON_stringify sample,
                  errorType = ''Rule Failed'', ruleOrColumn = name_rr rule,
                  severity_issue = severity_rr rule\<rparr>)
             (case sample_rows_rr rule of None \<Rightarrow> [] | Some rows \<Rightarrow> rows)
      else []) (rule_results report))"
  unfolding ruleFailures_def by (rule foldl_append_step) (simp add: foldl_push_map)

lemma missingValues_eq:
  "missingValues report issues = issues @ concat (map (\<lambda>mv.
      if missing_count mv > 0 \<and> sample_rows_mv mv \<noteq> None
      then map (\<lambda>sample. \<lparr>rowId = lineOf sample, value_issue = ''NULL / Empty'',
                  errorType = ''Missing Value'', ruleOrColumn = column mv,
                  severity_issue = (if missing_pct mv > 10 then Error else Warning)\<rparr>)
             (case sample_rows_mv mv of None \<Rightarrow> [] | Some rows \<Rightarrow> rows)
      else []) (missing_values report))"
  unfolding missingValues_def by (rule foldl_append_step) (simp add: foldl_push_map)

lemma primaryKeyIssues_eq:
  "primaryKeyIssues report issues = issues @
     (case primary_key_result report of None \<Rightarrow> []
      | Some pk \<Rightarrow> map (\<lambda>sample. \<lparr>rowId = lineOf sample, value_issue = JSON_stringify sample,
                  errorType = (if list_ex (\<lambda>col. notValue (getProperty sample col)) (columns pk)
                               then ''PK Null'' else ''PK Duplicate''),
                  ruleOrColumn = join '', '' (columns pk),
                  severity_issue = Error\<rparr>) (sample_rows_pk pk))"
  unfolding primaryKeyIssues_def by (simp add: foldl_push_map Let_def split: option.splits)

lemma missingValues_append: "missingValues report issues = issues @ missingValues report []"
  using missingValues_eq [of report issues] missingValues_eq [of report "[]"] by simp

lemma primaryKeyIssues_append: "primaryKeyIssues report issues = issues @ primaryKeyIssues report []"
  using primaryKeyIssues_eq [of report issues] primaryKeyIssues_eq [of report "[]"] by simp

lemma emittedIssues_parts:
  "emittedIssues report =
     ruleFailures report [] @ missingValues report [] @ primaryKeyIssues report []"
proof -
  have "emittedIssues report =
      missingValues report (ruleFailures report []) @ primaryKeyIssues report []"
    unfolding emittedIssues_def by (rule primaryKeyIssues_append)
  also have "missingValues report (ruleFailures report []) =
      ruleFailures report [] @ missingValues report []"
    by (rule missingValues_append)
  finally show ?thesis by simp
qed

lemma errorType_ruleFailures:
  "i \<in> set (ruleFailures report []) \<Longrightarrow> errorType i = ''Rule Failed''"
  by (auto simp: ruleFailures_eq split: if_splits)

lemma errorType_missingValues:
  "i \<in> set (missingValues report []) \<Longrightarrow> errorType i = ''Missing Value''"
  by (auto simp: missingValues_eq split: if_splits)

lemma errorType_primaryKeyIssues:
  "i \<in> set (primaryKeyIssues report []) \<Longrightarrow>
     errorType i = ''PK Null'' \<or> errorType i = ''PK Duplicate''"
  by (auto simp: primaryKeyIssues_eq split: if_splits option.splits)

lemma mset_allIssues: "mset (allIssues collate (Some report)) = mset (emittedIssues report)"
  by (simp add: allIssues_def mset_array_sort)

lemma set_allIssues: "set (allIssues collate (Some report)) = set (emittedIssues report)"
  by (simp add: allIssues_def set_array_sort)

lemma schemaIndicators_eq:
  "schemaIndicators report indicators = indicators @ concat (map (\<lambda>item.
        if status item = Missing then
          [\<lparr>label = ''Missing column'', detail = field item, severity_ind = Error\<rparr>]
        else if status item = Type_mismatch then
          [\<lparr>label = ''Type mismatch'',
            detail = field item @ '': expected '' @ dtypeString (expected_dtype item)
              @ '', found '' @ (case actual_dtype item of None \<Rightarrow> ''n/a'' | Some t \<Rightarrow> t),
            severity_ind = Warning\<rparr>]
        else []) (schema_results report))"
  unfolding schemaIndicators_def by (rule foldl_append_step) simp

lemma missingIndicators_eq:
  "missingIndicators report indicators = indicators @ concat (map (\<lambda>item.
        if missing_count item > 0 then
          [\<lparr>label = ''Missing data'',
            detail = column item @ '': '' @ toFixed1 (missing_pct item) @ ''%'',
            severity_ind = (if missing_pct item > 10 then Error else Warning)\<rparr>]
        else []) (missing_values report))"
  unfolding missingIndicators_def by (rule foldl_append_step) simp

lemma ruleIndicators_eq:
  "ruleIndicators report indicators = indicators @ concat (map (\<lambda>rule.
        if \<not> passed rule then
          [\<lparr>label = ''Rule failed'',
            detail = name_rr rule @ '' ('' @ Number_toString (failing_rows rule) @ '' rows)'',
            severity_ind = severity_rr rule\<rparr>]
        else []) (rule_results report))"
  unfolding ruleIndicators_def by (rule foldl_append_step) simp

lemma primaryKeyIndicators_append:
  "primaryKeyIndicators report indicators = indicators @ primaryKeyIndicators report []"
  by (simp add: primaryKeyIndicators_def Let_def split: option.splits)

lemma issueIndicators_parts:
  "issueIndicators (Some report) =
     schemaIndicators report [] @ missingIndicators report [] @ ruleIndicators report []
       @ primaryKeyIndicators report []"
proof -
  have "issueIndicators (Some report) =
      ruleIndicators report (missingIndicators report (schemaIndicators report []))
        @ primaryKeyIndicators report []"
    unfolding issueIndicators_def by (simp add: primaryKeyIndicators_append [symmetric])
  also have "ruleIndicators report (missingIndicators report (schemaIndicators report [])) =
      missingIndicators report (schemaIndicators report []) @ ruleIndicators report []"
    using ruleIndicators_eq [of report "missingIndicators report (schemaIndicators report [])"]
      ruleIndicators_eq [of report "[]"] by simp
  also have "missingIndicators report (schemaIndicators report []) =
      schemaIndicators report [] @ missingIndicators report []"
    using missingIndicators_eq [of report "schemaIndicators report []"]
      missingIndicators_eq [of report "[]"] by simp
  finally show ?thesis by simp
qed
section \<open>The order of the issue log\<close>

lemma compareIssues_antisym:
  assumes "hostCollation collate"
  shows "(compareIssues collate a b < 0) = (0 < compareIssues collate b a)"
  unfolding compareIssues_def using assms by (rule compareRowIds_antisym)

lemma compareIssues_weak:
  assumes "hostCollation collate" "0 \<le> compareIssues collate b a"
  shows "compareIssues collate a b \<le> 0"
  using compareIssues_antisym [OF assms(1), of b a] assms(2) by simp

lemma compareIssues_transitive:
  assumes "rowIdsConsistent collate (map rowId xs)"
  shows "\<forall>a\<in>set xs. \<forall>b\<in>set xs. \<forall>d\<in>set xs.
      compareIssues collate a b \<le> 0 \<and> compareIssues collate b d \<le> 0
        \<longrightarrow> compareIssues collate a d \<le> 0"
proof (intro ballI impI)
  fix a b d assume "a \<in> set xs" "b \<in> set xs" "d \<in> set xs"
  then have "rowId a \<in> set (map rowId xs)" "rowId b \<in> set (map rowId xs)"
    "rowId d \<in> set (map rowId xs)" by simp_all
  moreover assume "compareIssues collate a b \<le> 0 \<and> compareIssues collate b d \<le> 0"
  then have "rowIdOrdered collate (rowId a) (rowId b) \<and> rowIdOrdered collate (rowId b) (rowId d)"
    unfolding compareIssues_def rowIdOrdered_def .
  ultimately have "rowIdOrdered collate (rowId a) (rowId d)"
    using assms unfolding rowIdsConsistent_def by blast
  then show "compareIssues collate a d \<le> 0"
    unfolding compareIssues_def rowIdOrdered_def .
qed

lemma neighbours_allIssues:
  assumes "hostCollation collate"
  shows "neighboursOrdered collate (allIssues collate (Some report))"
proof -
  have "successively (\<lambda>a b. compareIssues collate a b \<le> 0)
      (array_sort (compareIssues collate) (emittedIssues report))"
    by (rule array_sort_ordered) (rule compareIssues_weak [OF assms])
  then show ?thesis
    unfolding neighboursOrdered_def allIssues_def compareIssues_def rowIdOrdered_def option.case .
qed

lemma sorted_allIssues:
  assumes "hostCollation collate"
    and "rowIdsConsistent collate (map rowId (emittedIssues report))"
  shows "issueLogSorted collate (allIssues collate (Some report))"
proof -
  have "sorted_wrt (\<lambda>a b. compareIssues collate a b \<le> 0)
      (array_sort (compareIssues collate) (emittedIssues report))"
  proof (rule array_sort_sorted)
    show "\<And>a b. 0 \<le> compareIssues collate b a \<Longrightarrow> compareIssues collate a b \<le> 0"
      by (rule compareIssues_weak [OF assms(1)])
    show "\<forall>a\<in>set (emittedIssues report). \<forall>b\<in>set (emittedIssues report).
        \<forall>d\<in>set (emittedIssues report).
          compareIssues collate a b \<le> 0 \<and> compareIssues collate b d \<le> 0
            \<longrightarrow> compareIssues collate a d \<le> 0"
      using assms(2) by (rule compareIssues_transitive)
  qed
  then show ?thesis
    unfolding issueLogSorted_def allIssues_def compareIssues_def rowIdOrdered_def option.case .
qed

lemma stable_allIssues:
  assumes "hostCollation collate"
    and "rowIdsConsistent collate (map rowId (emittedIssues report))"
  shows "filter (\<lambda>i. rowId i = k) (allIssues collate (Some report))
     = filter (\<lambda>i. rowId i = k) (emittedIssues report)"
  unfolding allIssues_def option.case
proof (rule array_sort_filter)
  show "\<And>a b. (compareIssues collate a b < 0) = (0 < compareIssues collate b a)"
    by (rule compareIssues_antisym [OF assms(1)])
  show "\<forall>a\<in>set (emittedIssues report). \<forall>b\<in>set (emittedIssues report).
      \<forall>d\<in>set (emittedIssues report).
        compareIssues collate a b \<le> 0 \<and> compareIssues collate b d \<le> 0
          \<longrightarrow> compareIssues collate a d \<le> 0"
    using assms(2) by (rule compareIssues_transitive)
  show "\<And>x y. rowId x = k \<Longrightarrow> rowId y = k \<Longrightarrow> compareIssues collate x y = 0"
    by (simp add: compareIssues_def compareRowIds_refl [OF assms(1)])
qed

text \<open>
  Line numbers in decimal digits and \<^verbatim>\<open>n/a\<close> are ordered consistently when every line
  number collates before \<^verbatim>\<open>n/a\<close>, as digits do before letters.
\<close>

lemma parseInt_decimal:
  assumes "isLineNumber s"
  shows "parseInt s = Some (int (toNumber (mathInt 10 s)))"
proof -
  from assms have ne: "s \<noteq> []" and dg: "list_all isDecimalDigit s"
    by (simp_all add: isLineNumber_def)
  obtain c cs where s: "s = c # cs" using ne by (cases s) auto
  have c: "isDecimalDigit c" using dg s by simp
  have ws: "dropWhile isWhiteSpace s = s"
    using c s by (auto simp: isWhiteSpace_def isDecimalDigit_def)
  have sign: "hd s \<noteq> CHR ''+''" "hd s \<noteq> CHR ''-''"
    using c s by (auto simp: isDecimalDigit_def codeUnit_def)
  have pre: "take 2 s \<noteq> ''0x''" "take 2 s \<noteq> ''0X''"
    using dg s by (cases cs; auto simp: isDecimalDigit_def codeUnit_def)+
  have "isRadixDigit 10 d" if "isDecimalDigit d" for d
    using that by (auto simp: isRadixDigit_def digitValue_def isDecimalDigit_def)
  then have tw: "takeWhile (isRadixDigit 10) s = s"
    using dg by (simp add: list_all_iff)
  show ?thesis
    unfolding parseInt_def Let_def ws
    by (simp only: sign pre tw ne simp_thms if_False if_True mult_1 option.simps)
qed

lemma parseInt_na: "parseInt ''n/a'' = None"
  by (simp add: parseInt_eval)

lemma not_lineNumber_na: "\<not> isLineNumber ''n/a''"
  by (simp add: isLineNumber_def isDecimalDigit_def codeUnit_def)

lemma codeUnitCompare_lineNumber_na:
  assumes "isLineNumber s"
  shows "codeUnitCompare s ''n/a'' < 0"
proof -
  from assms obtain c cs where s: "s = c # cs" and "isDecimalDigit c"
    by (cases s) (auto simp: isLineNumber_def)
  then have "codeUnit c < 110" by (simp add: isDecimalDigit_def)
  then show ?thesis using s by (simp add: codeUnit_def)
qed

lemma rowIdOrdered_plain:
  assumes h: "hostCollation collate"
    and d: "\<forall>s. isLineNumber s \<longrightarrow> collate s ''n/a'' < 0"
    and "plainRowId a" "plainRowId b"
  shows "rowIdOrdered collate a b \<longleftrightarrow>
           b = ''n/a'' \<or> (a \<noteq> ''n/a'' \<and> toNumber (mathInt 10 a) \<le> toNumber (mathInt 10 b))"
proof (cases "a = ''n/a''")
  case a: True
  show ?thesis
  proof (cases "b = ''n/a''")
    case True
    with a show ?thesis by (simp add: rowIdOrdered_def compareRowIds_refl [OF h])
  next
    case False
    with assms(4) have b: "isLineNumber b" by (simp add: plainRowId_def)
    with d have "collate b ''n/a'' < 0" by blast
    moreover have "(collate b ''n/a'' < 0) = (0 < collate ''n/a'' b)"
      using h unfolding hostCollation_def by blast
    ultimately have "0 < collate ''n/a'' b" by simp
    with a False show ?thesis
      by (simp add: rowIdOrdered_def compareRowIds_def parseInt_na)
  qed
next
  case False
  with assms(3) have a: "isLineNumber a" by (simp add: plainRowId_def)
  show ?thesis
  proof (cases "b = ''n/a''")
    case True
    from d a have "collate a ''n/a'' < 0" by blast
    with True show ?thesis
      by (simp add: rowIdOrdered_def compareRowIds_def parseInt_na parseInt_decimal [OF a])
  next
    case nb: False
    with assms(4) have b: "isLineNumber b" by (simp add: plainRowId_def)
    from False nb show ?thesis
      by (simp add: rowIdOrdered_def compareRowIds_def parseInt_decimal [OF a] parseInt_decimal [OF b])
  qed
qed

lemma plain_rowIds_consistent:
  assumes h: "hostCollation collate"
    and d: "\<forall>s. isLineNumber s \<longrightarrow> collate s ''n/a'' < 0"
    and "list_all plainRowId ids"
  shows "rowIdsConsistent collate ids"
  unfolding rowIdsConsistent_def
proof (intro ballI impI)
  fix a b c assume "a \<in> set ids" "b \<in> set ids" "c \<in> set ids"
  then have p: "plainRowId a" "plainRowId b" "plainRowId c"
    using assms(3) by (auto simp: list_all_iff)
  assume "rowIdOrdered collate a b \<and> rowIdOrdered collate b c"
  then have "b = ''n/a'' \<or> (a \<noteq> ''n/a'' \<and> toNumber (mathInt 10 a) \<le> toNumber (mathInt 10 b))"
    and "c = ''n/a'' \<or> (b \<noteq> ''n/a'' \<and> toNumber (mathInt 10 b) \<le> toNumber (mathInt 10 c))"
    using rowIdOrdered_plain [OF h d p(1,2)] rowIdOrdered_plain [OF h d p(2,3)] by blast+
  then have "c = ''n/a'' \<or> (a \<noteq> ''n/a'' \<and> toNumber (mathInt 10 a) \<le> toNumber (mathInt 10 c))"
    by (elim disjE conjE) (blast, blast, blast, simp)
  then show "rowIdOrdered collate a c"
    using rowIdOrdered_plain [OF h d p(1,3)] by blast
qed

text \<open>
  The log of \<open>cyclicReport\<close>, for every collation that puts \<^verbatim>\<open>" 7"\<close> before \<^verbatim>\<open>"/"\<close> and
  \<^verbatim>\<open>"/"\<close> before \<^verbatim>\<open>"5"\<close>, as the order of the code units and the collations of
  Unicode do (white space, then punctuation, then digits).  The four issues are emitted
  with the identifiers \<^verbatim>\<open>"5"\<close>, \<^verbatim>\<open>"/"\<close>, \<^verbatim>\<open>" 7"\<close>, \<^verbatim>\<open>"5"\<close>.  For the comparison function
  each is strictly after the next: \<^verbatim>\<open>"/"\<close> collates before \<^verbatim>\<open>"5"\<close>, \<^verbatim>\<open>" 7"\<close> before
  \<^verbatim>\<open>"/"\<close>, and 5 is less than 7.  The sort takes the four for one descending run and
  reverses it.
\<close>

lemma cyclicReport_log:
  assumes "collate ''/'' ''5'' < 0" "collate '' 7'' ''/'' < 0"
  shows "map (\<lambda>i. (rowId i, errorType i)) (allIssues collate (Some cyclicReport))
       = [(''5'', ''Missing Value''), ('' 7'', ''Rule Failed''), (''/'', ''Rule Failed''),
          (''5'', ''Rule Failed'')]"
proof -
  have e: "emittedIssues cyclicReport =
     [\<lparr>rowId = ''5'', value_issue = JSON_stringify [(''__line__'', ''5'')],
       errorType = ''Rule Failed'', ruleOrColumn = ''positive'', severity_issue = Warning\<rparr>,
      \<lparr>rowId = ''/'', value_issue = JSON_stringify [(''__line__'', ''/'')],
       errorType = ''Rule Failed'', ruleOrColumn = ''positive'', severity_issue = Warning\<rparr>,
      \<lparr>rowId = '' 7'', value_issue = JSON_stringify [(''__line__'', '' 7'')],
       errorType = ''Rule Failed'', ruleOrColumn = ''positive'', severity_issue = Warning\<rparr>,
      \<lparr>rowId = ''5'', value_issue = ''NULL / Empty'',
       errorType = ''Missing Value'', ruleOrColumn = ''age'', severity_issue = Warning\<rparr>]"
    by (simp add: cyclicReport_def emptyReport_def failedRule_def emittedIssues_def
      ruleFailures_def missingValues_def primaryKeyIssues_def lineOf_def getProperty_def)
  have c: "compareRowIds collate ''/'' ''5'' < 0" "compareRowIds collate '' 7'' ''/'' < 0"
    "compareRowIds collate ''5'' '' 7'' < 0"
    using assms by (simp_all add: compareRowIds_def parseInt_examples)
  from c have n: "\<not> 0 \<le> compareRowIds collate '' 7'' ''/''"
    "\<not> 0 \<le> compareRowIds collate ''5'' '' 7''"
    by simp_all
  show ?thesis
    unfolding allIssues_def option.case e
    by (simp add: array_sort_def compareIssues_def c n Let_def)
qed
text \<open>
  C1, as stated: the issue log of every report is sorted by the row identifier, and
  the sort is stable: issues with equal row identifiers keep the order in which they
  were emitted.  In \<open>cyclicReport\<close> the failed rule emits an issue for the row \<^verbatim>\<open>"5"\<close>
  before the missing-value entry emits one for the same row; in the log the issue of
  the missing-value entry stands first and that of the rule last.  The comparison
  function is no order on these identifiers: \<^verbatim>\<open>"5"\<close> is before \<^verbatim>\<open>" 7"\<close> (as numbers, 5
  and 7), \<^verbatim>\<open>" 7"\<close> before \<^verbatim>\<open>"/"\<close> and \<^verbatim>\<open>"/"\<close> before \<^verbatim>\<open>"5"\<close> (\<^verbatim>\<open>"/"\<close> is no number, so
  the strings are collated).  Every issue of the log and the next one are in order, but
  \<^verbatim>\<open>" 7"\<close> stands before the last \<^verbatim>\<open>"5"\<close>: the log is not sorted either.
\<close>

theorem allIssues_not_stable:
  "hostCollation codeUnitCompare
   \<and> map (\<lambda>i. (rowId i, errorType i))
        (ruleFailures cyclicReport [] @ missingValues cyclicReport []
           @ primaryKeyIssues cyclicReport [])
       = [(''5'', ''Rule Failed''), (''/'', ''Rule Failed''), ('' 7'', ''Rule Failed''),
          (''5'', ''Missing Value'')]
   \<and> map (\<lambda>i. (rowId i, errorType i)) (allIssues codeUnitCompare (Some cyclicReport))
       = [(''5'', ''Missing Value''), ('' 7'', ''Rule Failed''), (''/'', ''Rule Failed''),
          (''5'', ''Rule Failed'')]
   \<and> map errorType (filter (\<lambda>i. rowId i = ''5'')
        (ruleFailures cyclicReport [] @ missingValues cyclicReport []
           @ primaryKeyIssues cyclicReport []))
       = [''Rule Failed'', ''Missing Value'']
   \<and> map errorType (filter (\<lambda>i. rowId i = ''5'') (allIssues codeUnitCompare (Some cyclicReport)))
       = [''Missing Value'', ''Rule Failed'']
   \<and> neighboursOrdered codeUnitCompare (allIssues codeUnitCompare (Some cyclicReport))
   \<and> \<not> rowIdOrdered codeUnitCompare '' 7'' ''5''
   \<and> \<not> issueLogSorted codeUnitCompare (allIssues codeUnitCompare (Some cyclicReport))"
proof -
  let ?f = "\<lambda>i. (rowId i, errorType i)"
  have h: "hostCollation codeUnitCompare" by (rule hostCollation_codeUnitCompare)
  have e: "map ?f (ruleFailures cyclicReport [] @ missingValues cyclicReport []
           @ primaryKeyIssues cyclicReport [])
       = [(''5'', ''Rule Failed''), (''/'', ''Rule Failed''), ('' 7'', ''Rule Failed''),
          (''5'', ''Missing Value'')]"
    by (simp add: cyclicReport_def emptyReport_def failedRule_def
      ruleFailures_def missingValues_def primaryKeyIssues_def lineOf_def getProperty_def objectPrototypeNames_def)
  have "codeUnitCompare ''/'' ''5'' < 0" "codeUnitCompare '' 7'' ''/'' < 0"
    by (simp_all add: codeUnit_def)
  then have l: "map ?f (allIssues codeUnitCompare (Some cyclicReport))
       = [(''5'', ''Missing Value''), ('' 7'', ''Rule Failed''), (''/'', ''Rule Failed''),
          (''5'', ''Rule Failed'')]"
    by (rule cyclicReport_log)
  have fm: "map errorType (filter (\<lambda>i. rowId i = k) xs)
      = map snd (filter (\<lambda>p. fst p = k) (map ?f xs))" for k and xs :: "DerivedIssue list"
    by (induction xs) simp_all
  have fe: "map errorType (filter (\<lambda>i. rowId i = ''5'')
        (ruleFailures cyclicReport [] @ missingValues cyclicReport []
           @ primaryKeyIssues cyclicReport []))
       = [''Rule Failed'', ''Missing Value'']"
    unfolding fm e by simp
  have fl: "map errorType (filter (\<lambda>i. rowId i = ''5'')
        (allIssues codeUnitCompare (Some cyclicReport)))
       = [''Missing Value'', ''Rule Failed'']"
    unfolding fm l by simp
  have n: "neighboursOrdered codeUnitCompare (allIssues codeUnitCompare (Some cyclicReport))"
    using h by (rule neighbours_allIssues)
  have r: "\<not> rowIdOrdered codeUnitCompare '' 7'' ''5''"
    by (simp add: rowIdOrdered_def compareRowIds_def parseInt_examples)
  have sm: "sorted_wrt (\<lambda>a b. R (rowId a) (rowId b)) xs
      = sorted_wrt (\<lambda>p q. R (fst p) (fst q)) (map ?f xs)" for R and xs :: "DerivedIssue list"
    by (simp add: sorted_wrt_map)
  have s: "\<not> issueLogSorted codeUnitCompare (allIssues codeUnitCompare (Some cyclicReport))"
    unfolding issueLogSorted_def sm l using r by simp
  from h e l fe fl n r s show ?thesis by blast
qed

text \<open>
  C1, amended: the issue log holds the issues that the three loops emit (rule
  failures, then missing values, then primary-key issues), and every issue of the log
  and the next one are in the order of the comparison function: by value when
  \<^verbatim>\<open>parseInt\<close> reads both row identifiers, by the collation of the host otherwise.
  Whenever the comparison function is a consistent order on the row identifiers that
  occur, as it is when each is a line number in decimal digits or \<^verbatim>\<open>n/a\<close>, every issue
  of the log and every later one are in that order, and issues with equal row
  identifiers keep the order in which they were emitted.
\<close>

theorem allIssues_sorted_stable:
  assumes "hostCollation collate"
  shows "mset (allIssues collate (Some report))
        = mset (ruleFailures report [] @ missingValues report [] @ primaryKeyIssues report [])
    \<and> neighboursOrdered collate (allIssues collate (Some report))
    \<and> rowIdOrdered collate idA idB
        = (case (parseInt idA, parseInt idB) of
             (Some rowA, Some rowB) \<Rightarrow> rowA \<le> rowB
           | _ \<Rightarrow> collate idA idB \<le> 0)
    \<and> (rowIdsConsistent collate (map rowId (emittedIssues report)) \<longrightarrow>
         issueLogSorted collate (allIssues collate (Some report))
         \<and> filter (\<lambda>i. rowId i = k) (allIssues collate (Some report))
             = filter (\<lambda>i. rowId i = k)
                 (ruleFailures report [] @ missingValues report [] @ primaryKeyIssues report []))
    \<and> ((\<forall>s. isLineNumber s \<longrightarrow> collate s ''n/a'' < 0)
          \<and> list_all plainRowId (map rowId (emittedIssues report)) \<longrightarrow>
         rowIdsConsistent collate (map rowId (emittedIssues report)))"
proof (intro conjI impI)
  show "mset (allIssues collate (Some report))
        = mset (ruleFailures report [] @ missingValues report [] @ primaryKeyIssues report [])"
    using mset_allIssues [of collate report] by (simp only: emittedIssues_parts)
  show "neighboursOrdered collate (allIssues collate (Some report))"
    using assms by (rule neighbours_allIssues)
  show "rowIdOrdered collate idA idB
        = (case (parseInt idA, parseInt idB) of
             (Some rowA, Some rowB) \<Rightarrow> rowA \<le> rowB
           | _ \<Rightarrow> collate idA idB \<le> 0)"
    by (rule rowIdOrdered_iff)
next
  assume c: "rowIdsConsistent collate (map rowId (emittedIssues report))"
  show "issueLogSorted collate (allIssues collate (Some report))"
    using assms c by (rule sorted_allIssues)
  show "filter (\<lambda>i. rowId i = k) (allIssues collate (Some report))
      = filter (\<lambda>i. rowId i = k)
          (ruleFailures report [] @ missingValues report [] @ primaryKeyIssues report [])"
    using stable_allIssues [OF assms c, of k] by (simp only: emittedIssues_parts)
next
  assume "(\<forall>s. isLineNumber s \<longrightarrow> collate s ''n/a'' < 0)
      \<and> list_all plainRowId (map rowId (emittedIssues report))"
  then have "\<forall>s. isLineNumber s \<longrightarrow> collate s ''n/a'' < 0"
    and "list_all plainRowId (map rowId (emittedIssues report))" by blast+
  with assms show "rowIdsConsistent collate (map rowId (emittedIssues report))"
    by (rule plain_rowIds_consistent)
qed

theorem allIssues_sorted_stable_witness:
  "hostCollation codeUnitCompare
   \<and> codeUnitCompare ''10'' ''n/a'' < 0 \<and> codeUnitCompare ''9'' ''n/a'' < 0
   \<and> list_all plainRowId (map rowId (emittedIssues linesReport))
   \<and> rowIdsConsistent codeUnitCompare (map rowId (emittedIssues linesReport))
   \<and> issueLogSorted codeUnitCompare (allIssues codeUnitCompare (Some linesReport))
   \<and> neighboursOrdered codeUnitCompare (allIssues codeUnitCompare (Some linesReport))
   \<and> map (\<lambda>i. (rowId i, errorType i)) (ruleFailures linesReport [] @ missingValues linesReport []
        @ primaryKeyIssues linesReport [])
       = [(''10'', ''Rule Failed''), (''n/a'', ''Rule Failed''),
          (''9'', ''Missing Value''), (''10'', ''Missing Value'')]
   \<and> map (\<lambda>i. (rowId i, errorType i)) (allIssues codeUnitCompare (Some linesReport))
       = [(''9'', ''Missing Value''), (''10'', ''Rule Failed''),
          (''10'', ''Missing Value''), (''n/a'', ''Rule Failed'')]
   \<and> filter (\<lambda>i. rowId i = ''10'') (allIssues codeUnitCompare (Some linesReport))
       = filter (\<lambda>i. rowId i = ''10'') (ruleFailures linesReport [] @ missingValues linesReport []
           @ primaryKeyIssues linesReport [])"
proof -
  have h: "hostCollation codeUnitCompare" by (rule hostCollation_codeUnitCompare)
  have d: "\<forall>s. isLineNumber s \<longrightarrow> codeUnitCompare s ''n/a'' < 0"
    using codeUnitCompare_lineNumber_na by blast
  have ids: "map rowId (emittedIssues linesReport) = [''10'', ''n/a'', ''9'', ''10'']"
    by (simp add: linesReport_def emptyReport_def failedRule_def emittedIssues_def
      ruleFailures_def missingValues_def primaryKeyIssues_def lineOf_def getProperty_def objectPrototypeNames_def)
  have p: "list_all plainRowId (map rowId (emittedIssues linesReport))"
    unfolding ids by (simp add: plainRowId_def isLineNumber_def isDecimalDigit_def codeUnit_def)
  note t = allIssues_sorted_stable [OF h, of linesReport _ _ "''10''"]
  from t d p have c: "rowIdsConsistent codeUnitCompare (map rowId (emittedIssues linesReport))"
    by blast
  from t c have s: "issueLogSorted codeUnitCompare (allIssues codeUnitCompare (Some linesReport))"
    and f: "filter (\<lambda>i. rowId i = ''10'') (allIssues codeUnitCompare (Some linesReport))
       = filter (\<lambda>i. rowId i = ''10'') (ruleFailures linesReport [] @ missingValues linesReport []
           @ primaryKeyIssues linesReport [])"
    by blast+
  from t have n: "neighboursOrdered codeUnitCompare (allIssues codeUnitCompare (Some linesReport))"
    by blast
  have e: "map (\<lambda>i. (rowId i, errorType i)) (ruleFailures linesReport []
        @ missingValues linesReport [] @ primaryKeyIssues linesReport [])
       = [(''10'', ''Rule Failed''), (''n/a'', ''Rule Failed''),
          (''9'', ''Missing Value''), (''10'', ''Missing Value'')]"
    by (simp add: linesReport_def emptyReport_def failedRule_def
      ruleFailures_def missingValues_def primaryKeyIssues_def lineOf_def getProperty_def objectPrototypeNames_def)
  define i1 where "i1 = \<lparr>rowId = ''10'', value_issue = JSON_stringify [(''__line__'', ''10'')],
       errorType = ''Rule Failed'', ruleOrColumn = ''positive'', severity_issue = Warning\<rparr>"
  define i2 where "i2 = \<lparr>rowId = ''n/a'', value_issue = JSON_stringify [(''age'', ''-1'')],
       errorType = ''Rule Failed'', ruleOrColumn = ''positive'', severity_issue = Warning\<rparr>"
  define i3 where "i3 = \<lparr>rowId = ''9'', value_issue = ''NULL / Empty'',
       errorType = ''Missing Value'', ruleOrColumn = ''age'', severity_issue = Error\<rparr>"
  define i4 where "i4 = \<lparr>rowId = ''10'', value_issue = ''NULL / Empty'',
       errorType = ''Missing Value'', ruleOrColumn = ''age'', severity_issue = Error\<rparr>"
  have em: "emittedIssues linesReport = [i1, i2, i3, i4]"
    unfolding i1_def i2_def i3_def i4_def
    by (simp add: linesReport_def emptyReport_def failedRule_def emittedIssues_def
      ruleFailures_def missingValues_def primaryKeyIssues_def lineOf_def getProperty_def
      objectPrototypeNames_def)
  have pi: "parseInt ''10'' = Some 10" "parseInt ''9'' = Some 9"
    by (simp_all add: parseInt_eval)
  have cmp: "\<not> compareIssues codeUnitCompare i2 i1 < 0"
    "compareIssues codeUnitCompare i3 i2 < 0"
    "compareIssues codeUnitCompare i3 i1 < 0"
    "\<not> compareIssues codeUnitCompare i4 i1 < 0"
    "compareIssues codeUnitCompare i4 i2 < 0"
    unfolding i1_def i2_def i3_def i4_def
    by (simp_all add: compareIssues_def compareRowIds_def pi parseInt_examples codeUnit_def)
  have run: "countAndMakeRun (compareIssues codeUnitCompare) [i1, i2, i3, i4] = (2, [i1, i2, i3, i4])"
    using cmp by (simp add: Let_def)
  have "findInsertionPoint (compareIssues codeUnitCompare) i3 [i1, i2] 0 2 = 0"
    using cmp
    by (simp add: findInsertionPoint_left findInsertionPoint_right findInsertionPoint_stop)
  then have p3: "findInsertionPoint (compareIssues codeUnitCompare) i3 [i1, i2] 0 (Suc (Suc 0)) = 0"
    by (simp add: numeral_2_eq_2)
  have "findInsertionPoint (compareIssues codeUnitCompare) i4 [i3, i1, i2] 0 3 = 2"
    using cmp
    by (simp add: findInsertionPoint_left findInsertionPoint_right findInsertionPoint_stop)
  then have p4: "findInsertionPoint (compareIssues codeUnitCompare) i4 [i3, i1, i2] 0
      (Suc (Suc (Suc 0))) = Suc (Suc 0)"
    by (simp add: numeral_2_eq_2 numeral_3_eq_3)
  have srt: "array_sort (compareIssues codeUnitCompare) [i1, i2, i3, i4] = [i3, i1, i4, i2]"
    unfolding array_sort_def run by (simp add: Let_def p3 p4)
  have l: "map (\<lambda>i. (rowId i, errorType i)) (allIssues codeUnitCompare (Some linesReport))
       = [(''9'', ''Missing Value''), (''10'', ''Rule Failed''),
          (''10'', ''Missing Value''), (''n/a'', ''Rule Failed'')]"
    unfolding allIssues_def option.case em srt
    by (simp add: i1_def i2_def i3_def i4_def)
  have d2: "codeUnitCompare ''10'' ''n/a'' < 0" "codeUnitCompare ''9'' ''n/a'' < 0"
    by (simp_all add: codeUnit_def)
  from h d2 p c s n e l f show ?thesis by blast
qed
section \<open>The issues and indicators of each source\<close>

lemma filter_all: "(\<forall>x\<in>set xs. P x) \<Longrightarrow> filter P xs = xs"
  by (induction xs) auto

lemma filter_none: "(\<forall>x\<in>set xs. \<not> P x) \<Longrightarrow> filter P xs = []"
  by (induction xs) auto

text \<open>
  \<^verbatim>\<open>!sample[col]\<close> for a column that is not named like a member of
  \<^verbatim>\<open>Object.prototype\<close>: the row has no value for the column, or the empty string.
\<close>

lemma notValue_own_property:
  assumes "col \<notin> set objectPrototypeNames"
  shows "notValue (getProperty sample col)
     \<longleftrightarrow> map_of sample col = None \<or> map_of sample col = Some []"
  using assms by (cases "map_of sample col") (simp_all add: notValue_def getProperty_def Boolean_def)

lemma notValue_inherited_property:
  assumes "col \<in> set objectPrototypeNames"
  shows "notValue (getProperty sample col) \<longleftrightarrow> map_of sample col = Some []"
  using assms by (cases "map_of sample col") (simp_all add: notValue_def getProperty_def Boolean_def)

text \<open>
  The primary-key issues when no primary-key column is named like a member of
  \<^verbatim>\<open>Object.prototype\<close>: one per sample row of the primary-key result, emitted in the
  order of the rows and all kept in the log, each with the column names joined by a
  comma (and a space) as \<^verbatim>\<open>ruleOrColumn\<close> and the severity \<^verbatim>\<open>error\<close>; the type is
  \<^verbatim>\<open>PK Null\<close> exactly when the row has no value or the empty string for some
  primary-key column, and \<^verbatim>\<open>PK Duplicate\<close> otherwise.
\<close>

lemma primaryKey_issues:
  assumes "primary_key_result report = Some pk"
    and "set (columns pk) \<inter> set objectPrototypeNames = {}"
  shows
    "(let isPK = (\<lambda>i. errorType i = ''PK Null'' \<or> errorType i = ''PK Duplicate'');
          pkIssue = (\<lambda>sample.
            \<lparr>rowId = lineOf sample,
             value_issue = JSON_stringify sample,
             errorType =
               (if \<exists>col\<in>set (columns pk).
                     map_of sample col = None \<or> map_of sample col = Some []
                then ''PK Null'' else ''PK Duplicate''),
             ruleOrColumn = join '', '' (columns pk),
             severity_issue = Error\<rparr>)
      in filter isPK (emittedIssues report) = map pkIssue (sample_rows_pk pk)
         \<and> mset (filter isPK (allIssues collate (Some report)))
             = mset (map pkIssue (sample_rows_pk pk))
         \<and> length (filter isPK (allIssues collate (Some report))) = length (sample_rows_pk pk))"
proof -
  let ?isPK = "\<lambda>i. errorType i = ''PK Null'' \<or> errorType i = ''PK Duplicate''"
  let ?pkIssue = "\<lambda>sample.
            \<lparr>rowId = lineOf sample,
             value_issue = JSON_stringify sample,
             errorType =
               (if \<exists>col\<in>set (columns pk).
                     map_of sample col = None \<or> map_of sample col = Some []
                then ''PK Null'' else ''PK Duplicate''),
             ruleOrColumn = join '', '' (columns pk),
             severity_issue = Error\<rparr>"
  have rf: "filter ?isPK (ruleFailures report []) = []"
  proof (rule filter_none, rule ballI)
    fix i assume "i \<in> set (ruleFailures report [])"
    then have "errorType i = ''Rule Failed''" by (rule errorType_ruleFailures)
    then show "\<not> (errorType i = ''PK Null'' \<or> errorType i = ''PK Duplicate'')" by simp
  qed
  have mv: "filter ?isPK (missingValues report []) = []"
  proof (rule filter_none, rule ballI)
    fix i assume "i \<in> set (missingValues report [])"
    then have "errorType i = ''Missing Value''" by (rule errorType_missingValues)
    then show "\<not> (errorType i = ''PK Null'' \<or> errorType i = ''PK Duplicate'')" by simp
  qed
  have pk: "filter ?isPK (primaryKeyIssues report []) = primaryKeyIssues report []"
    by (rule filter_all, rule ballI) (rule errorType_primaryKeyIssues)
  have ex: "list_ex (\<lambda>col. notValue (getProperty sample col)) (columns pk)
      \<longleftrightarrow> (\<exists>col\<in>set (columns pk). map_of sample col = None \<or> map_of sample col = Some [])"
    for sample
  proof -
    have "notValue (getProperty sample col)
        \<longleftrightarrow> map_of sample col = None \<or> map_of sample col = Some []"
      if "col \<in> set (columns pk)" for col
    proof (rule notValue_own_property)
      from that assms(2) show "col \<notin> set objectPrototypeNames" by blast
    qed
    then show ?thesis unfolding list_ex_iff by blast
  qed
  have "primaryKeyIssues report [] = map ?pkIssue (sample_rows_pk pk)"
    unfolding primaryKeyIssues_eq using assms(1) by (simp add: ex)
  with pk have pk': "filter ?isPK (primaryKeyIssues report []) = map ?pkIssue (sample_rows_pk pk)"
    by (rule trans)
  have 1: "filter ?isPK (emittedIssues report) = map ?pkIssue (sample_rows_pk pk)"
    unfolding emittedIssues_parts filter_append rf mv pk' by simp
  have "mset (filter ?isPK (allIssues collate (Some report)))
      = mset (filter ?isPK (emittedIssues report))"
    by (simp only: mset_filter mset_allIssues)
  then have 2: "mset (filter ?isPK (allIssues collate (Some report)))
      = mset (map ?pkIssue (sample_rows_pk pk))"
    unfolding 1 .
  have "size (mset (filter ?isPK (allIssues collate (Some report))))
      = size (mset (map ?pkIssue (sample_rows_pk pk)))"
    by (rule arg_cong [OF 2])
  then have 3: "length (filter ?isPK (allIssues collate (Some report))) = length (sample_rows_pk pk)"
    by (simp only: size_mset length_map)
  show ?thesis
    unfolding Let_def by (intro conjI) (rule 1, rule 2, rule 3)
qed

lemma primaryKey_issues_keyReport:
  "map (\<lambda>i. (rowId i, errorType i, ruleOrColumn i, severity_issue i))
         (filter (\<lambda>i. errorType i = ''PK Null'' \<or> errorType i = ''PK Duplicate'')
            (emittedIssues keyReport))
       = [(''4'', ''PK Duplicate'', ''id, region'', Error),
          (''2'', ''PK Null'', ''id, region'', Error),
          (''n/a'', ''PK Null'', ''id, region'', Error)]
   \<and> length (filter (\<lambda>i. errorType i = ''PK Null'' \<or> errorType i = ''PK Duplicate'')
         (allIssues collate (Some keyReport))) = 3"
proof -
  have h: "primary_key_result keyReport = Some \<lparr>columns = [''id'', ''region''],
      duplicate_count = 2, null_count = 2,
      sample_rows_pk =
        [[(''__line__'', ''4''), (''id'', ''7''), (''region'', ''eu'')],
         [(''__line__'', ''2''), (''id'', ''8''), (''region'', '''')],
         [(''region'', ''us'')]]\<rparr>"
    by (simp add: keyReport_def emptyReport_def)
  have c: "set (columns \<lparr>columns = [''id'', ''region''],
      duplicate_count = 2, null_count = 2,
      sample_rows_pk =
        [[(''__line__'', ''4''), (''id'', ''7''), (''region'', ''eu'')],
         [(''__line__'', ''2''), (''id'', ''8''), (''region'', '''')],
         [(''region'', ''us'')]]\<rparr>) \<inter> set objectPrototypeNames = {}"
    by (simp add: objectPrototypeNames_def)
  from primaryKey_issues [OF h c, of collate] show ?thesis
    by (simp add: Let_def lineOf_def getProperty_def objectPrototypeNames_def)
qed

text \<open>
  C2: the type of a primary-key issue is \<^verbatim>\<open>PK Null\<close> exactly when some primary-key
  column's value in the row is falsy or absent.  The view tests \<^verbatim>\<open>!sample[col]\<close>, and
  \<^verbatim>\<open>sample[col]\<close> finds the members that every object inherits from
  \<^verbatim>\<open>Object.prototype\<close>.  In \<open>constructorReport\<close> the primary key is a column named
  \<^verbatim>\<open>constructor\<close>, and the sample row of line 4 has no value for it: the row has the
  properties \<^verbatim>\<open>__line__\<close> and \<^verbatim>\<open>amount\<close> only.  \<^verbatim>\<open>sample["constructor"]\<close> is the
  inherited function \<^verbatim>\<open>Object\<close>, which is truthy, and the issue is typed
  \<^verbatim>\<open>PK Duplicate\<close>.  The source states the intent, "let's check if PK columns are
  null"; for a column that is not named like a member of \<^verbatim>\<open>Object.prototype\<close> the
  type is as the claim says (\<open>primaryKey_issues\<close>).
\<close>

theorem primaryKey_inherited_property:
  "primary_key_result constructorReport
     = Some \<lparr>columns = [''constructor''], duplicate_count = 0, null_count = 1,
         sample_rows_pk = [[(''__line__'', ''4''), (''amount'', ''12'')]]\<rparr>
   \<and> map_of [(''__line__'', ''4''), (''amount'', ''12'')] ''constructor'' = None
   \<and> getProperty [(''__line__'', ''4''), (''amount'', ''12'')] ''constructor'' = PrototypeMember
   \<and> map (\<lambda>i. (rowId i, errorType i, ruleOrColumn i, severity_issue i))
        (allIssues collate (Some constructorReport))
       = [(''4'', ''PK Duplicate'', ''constructor'', Error)]"
  by (simp add: constructorReport_def emptyReport_def allIssues_def emittedIssues_def
      ruleFailures_def missingValues_def primaryKeyIssues_def array_sort_def lineOf_def
      getProperty_def objectPrototypeNames_def notValue_def Let_def)
lemma set_concat_map: "set (concat (map g xs)) = (\<Union>x\<in>set xs. set (g x))"
  by (induction xs) auto

lemma UN_if_filter: "(\<Union>x\<in>A. (if P x then F x else {})) = (\<Union>x\<in>{x \<in> A. P x}. F x)"
  by (auto split: if_splits)

lemma length_concat_map_if:
  "length (concat (map (\<lambda>x. if P x then [f x] else []) xs)) = length (filter P xs)"
  by (induction xs) simp_all

lemma set_missingValues:
  "set (missingValues report []) =
     {\<lparr>rowId = lineOf sample, value_issue = ''NULL / Empty'', errorType = ''Missing Value'',
       ruleOrColumn = column mv,
       severity_issue = (if missing_pct mv > 10 then Error else Warning)\<rparr>
      | mv sample. mv \<in> set (missing_values report) \<and> missing_count mv > 0
          \<and> sample \<in> set (case sample_rows_mv mv of None \<Rightarrow> [] | Some rows \<Rightarrow> rows)}"
proof -
  let ?rows = "\<lambda>mv. case sample_rows_mv mv of None \<Rightarrow> [] | Some rows \<Rightarrow> rows"
  let ?f = "\<lambda>mv sample. \<lparr>rowId = lineOf sample, value_issue = ''NULL / Empty'',
       errorType = ''Missing Value'', ruleOrColumn = column mv,
       severity_issue = (if missing_pct mv > 10 then Error else Warning)\<rparr>"
  let ?g = "\<lambda>mv. if missing_count mv > 0 \<and> sample_rows_mv mv \<noteq> None
      then map (?f mv) (?rows mv) else []"
  have g: "set (?g mv) = (if missing_count mv > 0 then ?f mv ` set (?rows mv) else {})" for mv
    by (cases "sample_rows_mv mv"; cases "0 < missing_count mv") (simp_all split del: if_split)
  have "set (missingValues report []) = (\<Union>mv\<in>set (missing_values report). set (?g mv))"
    unfolding missingValues_eq append_Nil by (rule set_concat_map)
  also have "\<dots> = (\<Union>mv\<in>set (missing_values report).
      (if missing_count mv > 0 then ?f mv ` set (?rows mv) else {}))"
    by (simp only: g)
  also have "\<dots> = (\<Union>mv\<in>{mv \<in> set (missing_values report). missing_count mv > 0}.
      ?f mv ` set (?rows mv))"
    by (rule UN_if_filter)
  also have "\<dots> = {?f mv sample | mv sample. mv \<in> set (missing_values report)
      \<and> missing_count mv > 0 \<and> sample \<in> set (?rows mv)}"
    by blast
  finally show ?thesis .
qed

lemma set_missingIndicators:
  "set (missingIndicators report []) =
     {\<lparr>label = ''Missing data'',
       detail = column mv @ '': '' @ toFixed1 (missing_pct mv) @ ''%'',
       severity_ind = (if missing_pct mv > 10 then Error else Warning)\<rparr>
      | mv. mv \<in> set (missing_values report) \<and> missing_count mv > 0}"
proof -
  let ?f = "\<lambda>mv. \<lparr>label = ''Missing data'',
       detail = column mv @ '': '' @ toFixed1 (missing_pct mv) @ ''%'',
       severity_ind = (if missing_pct mv > 10 then Error else Warning)\<rparr>"
  let ?g = "\<lambda>mv. if missing_count mv > 0 then [?f mv] else []"
  have g: "set (?g mv) = (if missing_count mv > 0 then {?f mv} else {})" for mv
    by (cases "0 < missing_count mv") (simp_all split del: if_split)
  have "set (missingIndicators report []) = (\<Union>mv\<in>set (missing_values report). set (?g mv))"
    unfolding missingIndicators_eq append_Nil by (rule set_concat_map)
  also have "\<dots> = (\<Union>mv\<in>set (missing_values report).
      (if missing_count mv > 0 then {?f mv} else {}))"
    by (simp only: g)
  also have "\<dots> = (\<Union>mv\<in>{mv \<in> set (missing_values report). missing_count mv > 0}. {?f mv})"
    by (rule UN_if_filter)
  also have "\<dots> = {?f mv | mv. mv \<in> set (missing_values report) \<and> missing_count mv > 0}"
    by blast
  finally show ?thesis .
qed

lemma label_schemaIndicators:
  "ind \<in> set (schemaIndicators report []) \<Longrightarrow>
     label ind = ''Missing column'' \<or> label ind = ''Type mismatch''"
  by (auto simp: schemaIndicators_eq split: if_splits)

lemma label_ruleIndicators:
  "ind \<in> set (ruleIndicators report []) \<Longrightarrow> label ind = ''Rule failed''"
  by (auto simp: ruleIndicators_eq split: if_splits)

lemma label_primaryKeyIndicators:
  "ind \<in> set (primaryKeyIndicators report []) \<Longrightarrow>
     label ind = ''PK duplicate'' \<or> label ind = ''PK null''"
  by (auto simp: primaryKeyIndicators_def Let_def split: if_splits option.splits)

lemma missing_issue_in_log:
  "i \<in> set (allIssues collate (Some report)) \<and> errorType i = ''Missing Value''
     \<longleftrightarrow> i \<in> set (missingValues report [])"
proof
  assume a: "i \<in> set (allIssues collate (Some report)) \<and> errorType i = ''Missing Value''"
  then have "i \<in> set (ruleFailures report []) \<or> i \<in> set (missingValues report [])
      \<or> i \<in> set (primaryKeyIssues report [])"
    by (simp add: set_allIssues emittedIssues_parts)
  moreover have "i \<notin> set (ruleFailures report [])"
    using a errorType_ruleFailures [of i report] by auto
  moreover have "i \<notin> set (primaryKeyIssues report [])"
    using a errorType_primaryKeyIssues [of i report] by auto
  ultimately show "i \<in> set (missingValues report [])" by blast
next
  assume "i \<in> set (missingValues report [])"
  then show "i \<in> set (allIssues collate (Some report)) \<and> errorType i = ''Missing Value''"
    by (simp add: set_allIssues emittedIssues_parts errorType_missingValues)
qed

lemma missing_indicator_in_list:
  "ind \<in> set (issueIndicators (Some report)) \<and> label ind = ''Missing data''
     \<longleftrightarrow> ind \<in> set (missingIndicators report [])"
proof
  assume a: "ind \<in> set (issueIndicators (Some report)) \<and> label ind = ''Missing data''"
  then have "ind \<in> set (schemaIndicators report []) \<or> ind \<in> set (missingIndicators report [])
      \<or> ind \<in> set (ruleIndicators report []) \<or> ind \<in> set (primaryKeyIndicators report [])"
    by (simp add: issueIndicators_parts)
  moreover have "ind \<notin> set (schemaIndicators report [])"
    using a label_schemaIndicators [of ind report] by auto
  moreover have "ind \<notin> set (ruleIndicators report [])"
    using a label_ruleIndicators [of ind report] by auto
  moreover have "ind \<notin> set (primaryKeyIndicators report [])"
    using a label_primaryKeyIndicators [of ind report] by auto
  ultimately show "ind \<in> set (missingIndicators report [])" by blast
next
  assume a: "ind \<in> set (missingIndicators report [])"
  then have "label ind = ''Missing data''"
    unfolding set_missingIndicators by auto
  with a show "ind \<in> set (issueIndicators (Some report)) \<and> label ind = ''Missing data''"
    by (simp add: issueIndicators_parts)
qed

text \<open>
  C3: the issues of type \<^verbatim>\<open>Missing Value\<close> in the log are exactly those of the sample
  rows of the entries of \<^verbatim>\<open>missing_values\<close> with a positive \<^verbatim>\<open>missing_count\<close>, and the
  indicators labelled \<^verbatim>\<open>Missing data\<close> are exactly those of these entries, one each.
  In both, the severity of an entry is \<^verbatim>\<open>error\<close> when its \<^verbatim>\<open>missing_pct\<close> is greater
  than 10 and \<^verbatim>\<open>warning\<close> otherwise.
\<close>

theorem missing_value_severity:
  "{i \<in> set (allIssues collate (Some report)). errorType i = ''Missing Value''} =
     {\<lparr>rowId = lineOf sample, value_issue = ''NULL / Empty'', errorType = ''Missing Value'',
       ruleOrColumn = column mv,
       severity_issue = (if missing_pct mv > 10 then Error else Warning)\<rparr>
      | mv sample. mv \<in> set (missing_values report) \<and> missing_count mv > 0
          \<and> sample \<in> set (case sample_rows_mv mv of None \<Rightarrow> [] | Some rows \<Rightarrow> rows)}
   \<and> {ind \<in> set (issueIndicators (Some report)). label ind = ''Missing data''} =
     {\<lparr>label = ''Missing data'',
       detail = column mv @ '': '' @ toFixed1 (missing_pct mv) @ ''%'',
       severity_ind = (if missing_pct mv > 10 then Error else Warning)\<rparr>
      | mv. mv \<in> set (missing_values report) \<and> missing_count mv > 0}
   \<and> length (filter (\<lambda>ind. label ind = ''Missing data'') (issueIndicators (Some report)))
       = length (filter (\<lambda>mv. missing_count mv > 0) (missing_values report))"
proof (intro conjI)
  show "{i \<in> set (allIssues collate (Some report)). errorType i = ''Missing Value''} =
     {\<lparr>rowId = lineOf sample, value_issue = ''NULL / Empty'', errorType = ''Missing Value'',
       ruleOrColumn = column mv,
       severity_issue = (if missing_pct mv > 10 then Error else Warning)\<rparr>
      | mv sample. mv \<in> set (missing_values report) \<and> missing_count mv > 0
          \<and> sample \<in> set (case sample_rows_mv mv of None \<Rightarrow> [] | Some rows \<Rightarrow> rows)}"
    unfolding set_missingValues [symmetric] using missing_issue_in_log [of _ collate report] by blast
  show "{ind \<in> set (issueIndicators (Some report)). label ind = ''Missing data''} =
     {\<lparr>label = ''Missing data'',
       detail = column mv @ '': '' @ toFixed1 (missing_pct mv) @ ''%'',
       severity_ind = (if missing_pct mv > 10 then Error else Warning)\<rparr>
      | mv. mv \<in> set (missing_values report) \<and> missing_count mv > 0}"
    unfolding set_missingIndicators [symmetric] using missing_indicator_in_list [of _ report]
    by blast
  let ?M = "\<lambda>ind. label ind = ''Missing data''"
  have s: "filter ?M (schemaIndicators report []) = []"
  proof (rule filter_none, rule ballI)
    fix ind assume "ind \<in> set (schemaIndicators report [])"
    then have "label ind = ''Missing column'' \<or> label ind = ''Type mismatch''"
      by (rule label_schemaIndicators)
    then show "\<not> label ind = ''Missing data''" by auto
  qed
  have r: "filter ?M (ruleIndicators report []) = []"
  proof (rule filter_none, rule ballI)
    fix ind assume "ind \<in> set (ruleIndicators report [])"
    then have "label ind = ''Rule failed''" by (rule label_ruleIndicators)
    then show "\<not> label ind = ''Missing data''" by simp
  qed
  have p: "filter ?M (primaryKeyIndicators report []) = []"
  proof (rule filter_none, rule ballI)
    fix ind assume "ind \<in> set (primaryKeyIndicators report [])"
    then have "label ind = ''PK duplicate'' \<or> label ind = ''PK null''"
      by (rule label_primaryKeyIndicators)
    then show "\<not> label ind = ''Missing data''" by auto
  qed
  have m: "filter ?M (missingIndicators report []) = missingIndicators report []"
    by (rule filter_all, rule ballI) (auto simp: set_missingIndicators)
  have "length (missingIndicators report [])
      = length (filter (\<lambda>mv. missing_count mv > 0) (missing_values report))"
    unfolding missingIndicators_eq append_Nil by (rule length_concat_map_if)
  then show "length (filter ?M (issueIndicators (Some report)))
       = length (filter (\<lambda>mv. missing_count mv > 0) (missing_values report))"
    unfolding issueIndicators_parts filter_append s r p m by simp
qed

lemma toFixed1_15: "toFixed1 15 = ''15.0''"
  by code_simp

lemma toFixed1_5: "toFixed1 5 = ''5.0''"
  by code_simp

theorem missing_value_severity_witness:
  "\<lparr>rowId = ''8'', value_issue = ''NULL / Empty'', errorType = ''Missing Value'',
     ruleOrColumn = ''age'', severity_issue = Error\<rparr> \<in> set (allIssues codeUnitCompare (Some missingReport))
   \<and> \<lparr>rowId = ''3'', value_issue = ''NULL / Empty'', errorType = ''Missing Value'',
     ruleOrColumn = ''city'', severity_issue = Warning\<rparr> \<in> set (allIssues codeUnitCompare (Some missingReport))
   \<and> \<lparr>label = ''Missing data'', detail = ''age: 15.0%'', severity_ind = Error\<rparr>
       \<in> set (issueIndicators (Some missingReport))
   \<and> \<lparr>label = ''Missing data'', detail = ''city: 5.0%'', severity_ind = Warning\<rparr>
       \<in> set (issueIndicators (Some missingReport))
   \<and> length (filter (\<lambda>ind. label ind = ''Missing data'') (issueIndicators (Some missingReport))) = 2"
proof -
  let ?age = "\<lparr>column = ''age'', missing_count = 3, missing_pct = 15,
       sample_rows_mv = Some [[(''__line__'', ''8'')]]\<rparr>"
  let ?city = "\<lparr>column = ''city'', missing_count = 1, missing_pct = 5,
       sample_rows_mv = Some [[(''__line__'', ''3'')]]\<rparr>"
  have mv: "missing_values missingReport = [?age, ?city]"
    by (simp add: missingReport_def emptyReport_def)
  note sev = missing_value_severity [of codeUnitCompare missingReport, unfolded mv]
  have 1: "\<lparr>rowId = ''8'', value_issue = ''NULL / Empty'', errorType = ''Missing Value'',
     ruleOrColumn = ''age'', severity_issue = Error\<rparr>
     \<in> {i \<in> set (allIssues codeUnitCompare (Some missingReport)). errorType i = ''Missing Value''}"
    unfolding sev [THEN conjunct1]
    by (rule CollectI, rule exI [of _ ?age], rule exI [of _ "[(''__line__'', ''8'')]"])
      (simp add: lineOf_def getProperty_def)
  have 2: "\<lparr>rowId = ''3'', value_issue = ''NULL / Empty'', errorType = ''Missing Value'',
     ruleOrColumn = ''city'', severity_issue = Warning\<rparr>
     \<in> {i \<in> set (allIssues codeUnitCompare (Some missingReport)). errorType i = ''Missing Value''}"
    unfolding sev [THEN conjunct1]
    by (rule CollectI, rule exI [of _ ?city], rule exI [of _ "[(''__line__'', ''3'')]"])
      (simp add: lineOf_def getProperty_def)
  have 3: "\<lparr>label = ''Missing data'', detail = ''age: 15.0%'', severity_ind = Error\<rparr>
     \<in> {ind \<in> set (issueIndicators (Some missingReport)). label ind = ''Missing data''}"
    unfolding sev [THEN conjunct2, THEN conjunct1]
    by (rule CollectI, rule exI [of _ ?age]) (simp add: toFixed1_15)
  have 4: "\<lparr>label = ''Missing data'', detail = ''city: 5.0%'', severity_ind = Warning\<rparr>
     \<in> {ind \<in> set (issueIndicators (Some missingReport)). label ind = ''Missing data''}"
    unfolding sev [THEN conjunct2, THEN conjunct1]
    by (rule CollectI, rule exI [of _ ?city]) (simp add: toFixed1_5)
  have 5: "length (filter (\<lambda>ind. label ind = ''Missing data'')
      (issueIndicators (Some missingReport))) = 2"
    unfolding sev [THEN conjunct2, THEN conjunct2] by simp
  from 1 2 3 4 5 show ?thesis by blast
qed

text \<open>
  C4: a rule result that failed and has no sample rows (none attached, or an empty
  list) adds nothing to the issue log, which is the log of the report without that
  rule result, and adds exactly one indicator, at its place among the indicators: it is
  labelled \<^verbatim>\<open>Rule failed\<close>, names the rule and its number of failing rows, and has the
  severity of the rule.
\<close>

theorem failed_rule_without_samples:
  assumes "rule_results report = pre @ [rule] @ post"
    and "\<not> passed rule"
    and "sample_rows_rr rule = None \<or> sample_rows_rr rule = Some []"
  shows "allIssues collate (Some report) = allIssues collate (Some (report\<lparr>rule_results := pre @ post\<rparr>))
    \<and> (\<exists>before after.
         issueIndicators (Some report) =
           before @ [\<lparr>label = ''Rule failed'',
                       detail = name_rr rule @ '' ('' @ Number_toString (failing_rows rule)
                         @ '' rows)'',
                       severity_ind = severity_rr rule\<rparr>] @ after
         \<and> issueIndicators (Some (report\<lparr>rule_results := pre @ post\<rparr>)) = before @ after)"
proof -
  let ?report' = "report\<lparr>rule_results := pre @ post\<rparr>"
  let ?ind = "\<lparr>label = ''Rule failed'',
      detail = name_rr rule @ '' ('' @ Number_toString (failing_rows rule) @ '' rows)'',
      severity_ind = severity_rr rule\<rparr>"
  have rows: "(case sample_rows_rr rule of None \<Rightarrow> [] | Some rows \<Rightarrow> rows) = []"
    using assms(3) by auto
  have "ruleFailures report [] = ruleFailures ?report' []"
    unfolding ruleFailures_eq using assms(1) rows by simp
  moreover have "missingValues report [] = missingValues ?report' []"
    by (simp add: missingValues_def)
  moreover have "primaryKeyIssues report [] = primaryKeyIssues ?report' []"
    by (simp add: primaryKeyIssues_def)
  ultimately have "emittedIssues report = emittedIssues ?report'"
    by (simp only: emittedIssues_parts)
  then have issues: "allIssues collate (Some report) = allIssues collate (Some ?report')"
    by (simp add: allIssues_def)
  let ?h = "\<lambda>rule. if \<not> passed rule then
          [\<lparr>label = ''Rule failed'',
            detail = name_rr rule @ '' ('' @ Number_toString (failing_rows rule) @ '' rows)'',
            severity_ind = severity_rr rule\<rparr>]
        else []"
  let ?before = "schemaIndicators report [] @ missingIndicators report [] @ concat (map ?h pre)"
  let ?after = "concat (map ?h post) @ primaryKeyIndicators report []"
  have same: "schemaIndicators ?report' [] = schemaIndicators report []"
    "missingIndicators ?report' [] = missingIndicators report []"
    "primaryKeyIndicators ?report' [] = primaryKeyIndicators report []"
    by (simp_all add: schemaIndicators_def missingIndicators_def primaryKeyIndicators_def)
  have r: "ruleIndicators report [] = concat (map ?h pre) @ [?ind] @ concat (map ?h post)"
    unfolding ruleIndicators_eq using assms(1,2) by simp
  have r': "ruleIndicators ?report' [] = concat (map ?h pre) @ concat (map ?h post)"
    unfolding ruleIndicators_eq by simp
  have 1: "issueIndicators (Some report) = ?before @ [?ind] @ ?after"
    unfolding issueIndicators_parts r by simp
  have 2: "issueIndicators (Some ?report') = ?before @ ?after"
    unfolding issueIndicators_parts r' same by simp
  from 1 2 have "\<exists>before after. issueIndicators (Some report) = before @ [?ind] @ after
      \<and> issueIndicators (Some ?report') = before @ after"
    by blast
  with issues show ?thesis by blast
qed

theorem failed_rule_without_samples_witness:
  "rule_results unsampledReport = [] @ [failedRule ''positive'' None] @ []
   \<and> \<not> passed (failedRule ''positive'' None)
   \<and> allIssues codeUnitCompare (Some unsampledReport) = []
   \<and> issueIndicators (Some unsampledReport)
       = [\<lparr>label = ''Rule failed'', detail = ''positive (3 rows)'', severity_ind = Warning\<rparr>]"
proof -
  have h: "rule_results unsampledReport = [] @ [failedRule ''positive'' None] @ []"
    "\<not> passed (failedRule ''positive'' None)"
    "sample_rows_rr (failedRule ''positive'' None) = None
      \<or> sample_rows_rr (failedRule ''positive'' None) = Some []"
    by (simp_all add: unsampledReport_def emptyReport_def failedRule_def)
  have e: "unsampledReport\<lparr>rule_results := [] @ []\<rparr> = emptyReport"
    by (simp add: unsampledReport_def emptyReport_def)
  have e1: "allIssues codeUnitCompare (Some emptyReport) = []"
    by (simp add: allIssues_def emittedIssues_def ruleFailures_def missingValues_def
        primaryKeyIssues_def emptyReport_def array_sort_def)
  have e2: "issueIndicators (Some emptyReport) = []"
    by (simp add: issueIndicators_def schemaIndicators_def missingIndicators_def
        ruleIndicators_def primaryKeyIndicators_def emptyReport_def)
  have d: "name_rr (failedRule ''positive'' None) @ '' (''
      @ Number_toString (failing_rows (failedRule ''positive'' None)) @ '' rows)''
      = ''positive (3 rows)''"
    by (simp add: failedRule_def Number_toString_def digitChar_def)
  have s: "severity_rr (failedRule ''positive'' None) = Warning"
    by (simp add: failedRule_def)
  from failed_rule_without_samples [OF h, of codeUnitCompare] have
    "allIssues codeUnitCompare (Some unsampledReport) = []"
    and "\<exists>before after. issueIndicators (Some unsampledReport) =
           before @ [\<lparr>label = ''Rule failed'', detail = ''positive (3 rows)'',
                       severity_ind = Warning\<rparr>] @ after
         \<and> [] = before @ after"
    unfolding e e1 e2 d s by blast+
  then show ?thesis using h by auto
qed

section \<open>Reports with empty sections\<close>

lemma schemaIndicators_Nil_iff:
  "schemaIndicators report [] = [] \<longleftrightarrow> (\<forall>item\<in>set (schema_results report). status item = Ok)"
proof -
  have g: "(if status item = Missing then [a] else if status item = Type_mismatch then [b] else []) = []
        \<longleftrightarrow> status item = Ok" for item :: SchemaResult and a b :: Indicator
    by (cases "status item") simp_all
  show ?thesis
    by (simp only: schemaIndicators_eq append_Nil concat_map_Nil_iff g)
qed

text \<open>
  C5, as stated: a report with empty \<^verbatim>\<open>missing_values\<close>, empty \<^verbatim>\<open>rule_results\<close> and no
  \<^verbatim>\<open>primary_key_result\<close> has an empty issue log and no indicators.  The indicators
  also cover \<^verbatim>\<open>schema_results\<close>: a report that only has a missing column has one
  indicator.
\<close>

theorem empty_sections_indicator:
  "missing_values (emptyReport\<lparr>schema_results := [missingColumn]\<rparr>) = []
   \<and> rule_results (emptyReport\<lparr>schema_results := [missingColumn]\<rparr>) = []
   \<and> primary_key_result (emptyReport\<lparr>schema_results := [missingColumn]\<rparr>) = None
   \<and> issueIndicators (Some (emptyReport\<lparr>schema_results := [missingColumn]\<rparr>))
       = [\<lparr>label = ''Missing column'', detail = ''id'', severity_ind = Error\<rparr>]"
  by (simp add: emptyReport_def missingColumn_def issueIndicators_def schemaIndicators_def
      missingIndicators_def ruleIndicators_def primaryKeyIndicators_def)

text \<open>
  C5, amended: such a report has an empty issue log, and its indicators are those of
  \<^verbatim>\<open>schema_results\<close>; there is none exactly when every schema result has status
  \<^verbatim>\<open>ok\<close> (in particular when \<^verbatim>\<open>schema_results\<close> is empty too).
\<close>

theorem empty_sections:
  assumes "missing_values report = []" "rule_results report = []"
    "primary_key_result report = None"
  shows "allIssues collate (Some report) = []
    \<and> issueIndicators (Some report) = schemaIndicators report []
    \<and> (issueIndicators (Some report) = []
         \<longleftrightarrow> (\<forall>item\<in>set (schema_results report). status item = Ok))"
proof -
  have "emittedIssues report = []"
    using assms
    by (simp add: emittedIssues_def ruleFailures_def missingValues_def primaryKeyIssues_def)
  then have 1: "allIssues collate (Some report) = []"
    by (simp add: allIssues_def array_sort_def)
  have 2: "issueIndicators (Some report) = schemaIndicators report []"
    using assms
    by (simp add: issueIndicators_def missingIndicators_def ruleIndicators_def
        primaryKeyIndicators_def)
  from 1 2 schemaIndicators_Nil_iff show ?thesis by simp
qed

theorem empty_sections_witness:
  "missing_values emptyReport = [] \<and> rule_results emptyReport = []
   \<and> primary_key_result emptyReport = None
   \<and> allIssues codeUnitCompare (Some emptyReport) = [] \<and> issueIndicators (Some emptyReport) = []"
proof -
  have h: "missing_values emptyReport = []" "rule_results emptyReport = []"
    "primary_key_result emptyReport = None"
    by (simp_all add: emptyReport_def)
  have ok: "\<forall>item\<in>set (schema_results emptyReport). status item = Ok"
    by (simp add: emptyReport_def)
  from empty_sections [OF h, of codeUnitCompare] have "allIssues codeUnitCompare (Some emptyReport) = []"
    and "issueIndicators (Some emptyReport) = []
         \<longleftrightarrow> (\<forall>item\<in>set (schema_results emptyReport). status item = Ok)"
    by blast+
  with ok h show ?thesis by blast
qed
section \<open>Editing the configuration\<close>

lemma length_spreadArray: "length (spreadArray xs) = length xs"
  by (simp add: spreadArray_def)

lemma nth_spreadArray:
  "j < length xs \<Longrightarrow> spreadArray xs ! j = (if xs ! j = Empty then Undefined else xs ! j)"
  by (cases "xs ! j") (simp_all add: spreadArray_def)


lemma spreadArray_dense: "Empty \<notin> set (spreadArray xs)"
proof (induction xs)
  case Nil
  then show ?case by (simp add: spreadArray_def)
next
  case (Cons x xs)
  then show ?case by (cases x) (simp_all add: spreadArray_def)
qed

lemma arrayGet_spreadArray: "arrayGet (spreadArray xs) i = arrayGet xs i"
proof (cases "0 \<le> i \<and> nat i < length xs")
  case True
  then show ?thesis
    by (cases "xs ! nat i") (simp_all add: arrayGet_def length_spreadArray nth_spreadArray)
next
  case False
  then have "\<not> (0 \<le> i \<and> nat i < length (spreadArray xs))" by (simp add: length_spreadArray)
  with False show ?thesis by (simp only: arrayGet_def if_False)
qed

lemma filterIdx_out_of_range:
  "index < int k \<or> int k + int (length xs) \<le> index \<Longrightarrow>
     filterIdx k index xs = filter (\<lambda>s. s \<noteq> Empty) xs"
  by (induction xs arbitrary: k) auto

lemma filter_no_empty_slot: "Empty \<notin> set xs \<Longrightarrow> filter (\<lambda>s. s \<noteq> Empty) xs = xs"
  by (induction xs) auto

lemma filterIdx_dense: "Empty \<notin> set (filterIdx k index xs)"
  by (induction xs arbitrary: k) auto

lemma updateSchemaField_in_bounds:
  assumes "0 \<le> index" "nat index < length (schema prev)"
  shows "updateSchemaField index partial prev =
     prev\<lparr>schema := (spreadArray (schema prev))[nat index :=
        Item (spreadSchemaField (arrayGet (schema prev) index) partial)]\<rparr>"
  using assms
  by (simp add: updateSchemaField_def arraySet_def arrayGet_spreadArray length_spreadArray Let_def)

lemma updateSchemaField_beyond:
  assumes "int (length (schema prev)) \<le> index" "index < 4294967295"
  shows "updateSchemaField index partial prev =
     prev\<lparr>schema := spreadArray (schema prev)
        @ replicate (nat index - length (schema prev)) Empty
        @ [Item (spreadSchemaField None partial)]\<rparr>"
proof -
  have "0 \<le> index" "\<not> nat index < length (schema prev)" using assms by linarith+
  with assms(2) show ?thesis
    by (simp add: updateSchemaField_def arraySet_def arrayGet_def length_spreadArray Let_def)
qed

lemma updateSchemaField_no_position:
  assumes "index < 0 \<or> (int (length (schema prev)) \<le> index \<and> 4294967295 \<le> index)"
  shows "updateSchemaField index partial prev = prev\<lparr>schema := spreadArray (schema prev)\<rparr>"
proof (cases "index < 0")
  case True
  then show ?thesis by (simp add: updateSchemaField_def arraySet_def Let_def)
next
  case False
  with assms have "\<not> nat index < length (schema prev)" "\<not> index < 4294967295" by linarith+
  with False show ?thesis
    by (simp add: updateSchemaField_def arraySet_def length_spreadArray Let_def)
qed

lemma arrayGet_updateSchemaField:
  assumes "0 \<le> index" "index < 4294967295"
  shows "arrayGet (schema (updateSchemaField index partial prev)) index
     = Some (spreadSchemaField (arrayGet (schema prev) index) partial)"
proof (cases "nat index < length (schema prev)")
  case True
  with assms show ?thesis
    by (simp add: updateSchemaField_in_bounds arrayGet_def length_spreadArray)
next
  case False
  then have "int (length (schema prev)) \<le> index" using assms by linarith
  from updateSchemaField_beyond [OF this assms(2)] assms False show ?thesis
    by (simp add: arrayGet_def nth_append length_spreadArray)
qed

text \<open>
  The arrays that the form builds have no empty slot: the configuration with which
  the page starts has none, and adding, removing, and updating at a position of the
  list or at a negative index give none.
\<close>

lemma edits_without_empty_slot:
  "Empty \<notin> set (schema initialConfig)"
  "Empty \<notin> set (schema (addSchemaField prev))"
  "Empty \<notin> set (schema (removeSchemaField index prev))"
  "index < int (length (schema prev)) \<Longrightarrow>
     Empty \<notin> set (schema (updateSchemaField index partial prev))"
proof -
  show "Empty \<notin> set (schema initialConfig)" by (simp add: initialConfig_def)
  show "Empty \<notin> set (schema (addSchemaField prev))"
    using spreadArray_dense [of "schema prev"] by (simp add: addSchemaField_def)
  show "Empty \<notin> set (schema (removeSchemaField index prev))"
    by (simp add: removeSchemaField_def filterIdx_dense)
  assume b: "index < int (length (schema prev))"
  show "Empty \<notin> set (schema (updateSchemaField index partial prev))"
  proof (cases "0 \<le> index")
    case True
    with b have "nat index < length (schema prev)" by linarith
    from updateSchemaField_in_bounds [OF True this, of partial]
    have "set (schema (updateSchemaField index partial prev))
        \<subseteq> insert (Item (spreadSchemaField (arrayGet (schema prev) index) partial))
            (set (spreadArray (schema prev)))"
      by (simp add: set_update_subset_insert)
    with spreadArray_dense [of "schema prev"] show ?thesis by auto
  next
    case False
    then have "index < 0 \<or> (int (length (schema prev)) \<le> index \<and> 4294967295 \<le> index)"
      by simp
    from updateSchemaField_no_position [OF this, of partial] spreadArray_dense [of "schema prev"]
    show ?thesis by simp
  qed
qed






text \<open>
  C9, as stated: removing at an index outside the list returns the configuration
  completely unchanged.  \<^verbatim>\<open>Array.prototype.filter\<close> does not visit empty slots, so
  the result has none: the schema of \<open>sparseConfig\<close> has four positions, two of them
  empty slots, and removing at the index 10 returns a schema of two positions.
\<close>

theorem remove_drops_empty_slots:
  "schema sparseConfig = [Item field1, Empty, Empty, Item nameOnly]
   \<and> int (length (schema sparseConfig)) \<le> 10
   \<and> schema (removeSchemaField 10 sparseConfig) = [Item field1, Item nameOnly]
   \<and> removeSchemaField 10 sparseConfig \<noteq> sparseConfig"
proof -
  have s1: "schema oneFieldConfig = [Item field1]"
    by (simp add: oneFieldConfig_def addRule_def addSchemaField_def initialConfig_def field1_def
        spreadArray_def digitChar_def)
  have m: "spreadSchemaField None nameOnly = nameOnly"
    by (simp add: spreadSchemaField_def nameOnly_def emptySchemaField_def override_def)
  have s: "schema sparseConfig = [Item field1, Empty, Empty, Item nameOnly]"
    by (simp add: sparseConfig_def updateSchemaField_def s1 arraySet_def arrayGet_def
        spreadArray_def m Let_def numeral_eq_Suc)
  have r: "schema (removeSchemaField 10 sparseConfig) = [Item field1, Item nameOnly]"
    by (simp add: removeSchemaField_def s)
  have "schema (removeSchemaField 10 sparseConfig) \<noteq> schema sparseConfig"
    unfolding r s by simp
  then have "removeSchemaField 10 sparseConfig \<noteq> sparseConfig" by auto
  with s r show ?thesis by simp
qed

text \<open>
  C9, amended: removing at an index outside the list signals no error (the function
  returns a configuration for every index) and returns the configuration with the empty
  slots of the list dropped and nothing else changed, for the schema and for the rules.
  A configuration whose list has no empty slot, as every list that the form builds
  has, is returned as it is.
\<close>

theorem remove_out_of_range:
  "(index < 0 \<or> int (length (schema prev)) \<le> index \<longrightarrow>
      removeSchemaField index prev = prev\<lparr>schema := filter (\<lambda>s. s \<noteq> Empty) (schema prev)\<rparr>
      \<and> (Empty \<notin> set (schema prev) \<longrightarrow> removeSchemaField index prev = prev))
   \<and> (index < 0 \<or> int (length (rules prev)) \<le> index \<longrightarrow>
      removeRule index prev = prev\<lparr>rules := filter (\<lambda>s. s \<noteq> Empty) (rules prev)\<rparr>
      \<and> (Empty \<notin> set (rules prev) \<longrightarrow> removeRule index prev = prev))"
proof (intro conjI impI)
  assume "index < 0 \<or> int (length (schema prev)) \<le> index"
  then have "index < int 0 \<or> int 0 + int (length (schema prev)) \<le> index" by simp
  then have f: "filterIdx 0 index (schema prev) = filter (\<lambda>s. s \<noteq> Empty) (schema prev)"
    by (rule filterIdx_out_of_range)
  then show "removeSchemaField index prev
      = prev\<lparr>schema := filter (\<lambda>s. s \<noteq> Empty) (schema prev)\<rparr>"
    by (simp add: removeSchemaField_def)
  assume "Empty \<notin> set (schema prev)"
  then have "filter (\<lambda>s. s \<noteq> Empty) (schema prev) = schema prev"
    by (rule filter_no_empty_slot)
  with f show "removeSchemaField index prev = prev"
    by (simp add: removeSchemaField_def)
next
  assume "index < 0 \<or> int (length (rules prev)) \<le> index"
  then have "index < int 0 \<or> int 0 + int (length (rules prev)) \<le> index" by simp
  then have f: "filterIdx 0 index (rules prev) = filter (\<lambda>s. s \<noteq> Empty) (rules prev)"
    by (rule filterIdx_out_of_range)
  then show "removeRule index prev = prev\<lparr>rules := filter (\<lambda>s. s \<noteq> Empty) (rules prev)\<rparr>"
    by (simp add: removeRule_def)
  assume "Empty \<notin> set (rules prev)"
  then have "filter (\<lambda>s. s \<noteq> Empty) (rules prev) = rules prev"
    by (rule filter_no_empty_slot)
  with f show "removeRule index prev = prev"
    by (simp add: removeRule_def)
qed

theorem remove_out_of_range_witness:
  "int (length (schema oneFieldConfig)) \<le> 1
   \<and> Empty \<notin> set (schema oneFieldConfig)
   \<and> removeSchemaField 1 oneFieldConfig = oneFieldConfig
   \<and> removeSchemaField (- 1) oneFieldConfig = oneFieldConfig
   \<and> int (length (rules oneFieldConfig)) \<le> 5
   \<and> Empty \<notin> set (rules oneFieldConfig)
   \<and> removeRule 5 oneFieldConfig = oneFieldConfig
   \<and> int (length (schema sparseConfig)) \<le> 10
   \<and> schema (removeSchemaField 10 sparseConfig) = [Item field1, Item nameOnly]
   \<and> schema (removeSchemaField 0 oneFieldConfig) = []"
proof -
  have s1: "schema oneFieldConfig = [Item field1]"
    by (simp add: oneFieldConfig_def addRule_def addSchemaField_def initialConfig_def field1_def
        spreadArray_def digitChar_def)
  have r1: "length (rules oneFieldConfig) = 1" "Empty \<notin> set (rules oneFieldConfig)"
    by (simp_all add: oneFieldConfig_def addRule_def addSchemaField_def initialConfig_def
        spreadArray_def)
  have m: "spreadSchemaField None nameOnly = nameOnly"
    by (simp add: spreadSchemaField_def nameOnly_def emptySchemaField_def override_def)
  have s: "schema sparseConfig = [Item field1, Empty, Empty, Item nameOnly]"
    by (simp add: sparseConfig_def updateSchemaField_def s1 arraySet_def arrayGet_def
        spreadArray_def m Let_def numeral_eq_Suc)
  have z: "schema (removeSchemaField 0 oneFieldConfig) = []"
    by (simp add: removeSchemaField_def s1)
  from remove_out_of_range [of 10 sparseConfig]
  have "removeSchemaField 10 sparseConfig
      = sparseConfig\<lparr>schema := filter (\<lambda>s. s \<noteq> Empty) (schema sparseConfig)\<rparr>"
    by (simp add: s)
  then have t: "schema (removeSchemaField 10 sparseConfig) = [Item field1, Item nameOnly]"
    by (simp add: s)
  have l: "int (length (schema oneFieldConfig)) \<le> 1" "Empty \<notin> set (schema oneFieldConfig)"
    "int (length (rules oneFieldConfig)) \<le> 5" "int (length (schema sparseConfig)) \<le> 10"
    by (simp_all add: s1 r1 s)
  from remove_out_of_range [of 1 oneFieldConfig] l
  have a: "removeSchemaField 1 oneFieldConfig = oneFieldConfig" by blast
  have "(- 1 :: int) < 0" by simp
  with remove_out_of_range [of "- 1" oneFieldConfig] l
  have b: "removeSchemaField (- 1) oneFieldConfig = oneFieldConfig" by blast
  from remove_out_of_range [of 5 oneFieldConfig] l r1
  have c: "removeRule 5 oneFieldConfig = oneFieldConfig" by blast
  from l r1 a b c t z show ?thesis by blast
qed
section \<open>Allowed values from the text input\<close>

lemma Boolean_fun: "Boolean = (\<lambda>s. s \<noteq> [])"
  by (simp add: fun_eq_iff Boolean_def)

lemma split_not_Nil: "split sep s \<noteq> []"
  by (induction s) (auto split: list.splits)

lemma split_no_separator: "t \<in> set (split sep s) \<Longrightarrow> sep \<notin> set t"
  by (induction s arbitrary: t) (auto split: list.splits if_splits)

lemma join_split: "join [sep] (split sep s) = s"
proof (induction s)
  case Nil
  then show ?case by simp
next
  case (Cons c cs)
  obtain t ts where ts: "split sep cs = t # ts"
    using split_not_Nil [of sep cs] by (cases "split sep cs") auto
  with Cons show ?case by (cases ts) auto
qed

lemma set_trim: "set (trim t) \<subseteq> set t"
  unfolding trim_def by (metis set_dropWhileD set_rev subsetI)

lemma hd_trim: "trim t \<noteq> [] \<Longrightarrow> \<not> isWhiteSpace (hd (trim t))"
  unfolding trim_def
  by (metis Nil_is_rev_conv dropWhile.simps(1) hd_dropWhile hd_rev
    last_appendR last_rev takeWhile_dropWhile_id)

lemma last_trim: "trim t \<noteq> [] \<Longrightarrow> \<not> isWhiteSpace (last (trim t))"
  unfolding trim_def by (simp add: hd_dropWhile last_rev)

text \<open>
  C8: the list stored for \<^verbatim>\<open>allowed_values\<close> in the field at the index (a position of
  an array) is the raw string split at the commas (the pieces joined by commas give the
  raw string back), each piece trimmed, the empty ones dropped: no stored value is
  empty, contains a comma, or starts or ends with white space, the no-break space
  included.  The input \<^verbatim>\<open>a, b ,, c\<close> gives \<^verbatim>\<open>a\<close>, \<^verbatim>\<open>b\<close>, \<^verbatim>\<open>c\<close>.
\<close>

theorem allowed_values_from_raw:
  assumes "0 \<le> index" "index < 4294967295"
  shows
    "(let stored = filter (\<lambda>t. t \<noteq> []) (map trim (split CHR '','' raw))
      in (\<exists>obj. arrayGet (schema (onChangeAllowedValues index raw prev)) index = Some obj
            \<and> allowed_values obj = Some stored)
         \<and> join '','' (split CHR '','' raw) = raw
         \<and> (\<forall>t\<in>set stored. t \<noteq> [] \<and> CHR '','' \<notin> set t
              \<and> \<not> isWhiteSpace (hd t) \<and> \<not> isWhiteSpace (last t)))
     \<and> (\<exists>obj. arrayGet (schema (onChangeAllowedValues index ''a, b ,, c'' prev)) index = Some obj
            \<and> allowed_values obj = Some [''a'', ''b'', ''c''])"
proof -
  let ?stored = "filter (\<lambda>t. t \<noteq> []) (map trim (split CHR '','' raw))"
  have get: "\<exists>obj. arrayGet (schema (onChangeAllowedValues index r prev)) index = Some obj
      \<and> allowed_values obj = Some (filter (\<lambda>t. t \<noteq> []) (map trim (split CHR '','' r)))" for r
    unfolding onChangeAllowedValues_def arrayGet_updateSchemaField [OF assms]
    by (simp add: spreadSchemaField_def override_def Boolean_fun Let_def emptySchemaField_def)
  have ex: "filter (\<lambda>t. t \<noteq> []) (map trim (split CHR '','' ''a, b ,, c'')) = [''a'', ''b'', ''c'']"
    by (simp add: trim_def isWhiteSpace_def codeUnit_def)
  have tok: "t \<noteq> [] \<and> CHR '','' \<notin> set t \<and> \<not> isWhiteSpace (hd t) \<and> \<not> isWhiteSpace (last t)"
    if "t \<in> set ?stored" for t
  proof -
    from that have "t \<in> trim ` set (split CHR '','' raw)" and ne: "t \<noteq> []"
      by simp_all
    then obtain p where p: "p \<in> set (split CHR '','' raw)" "t = trim p"
      by blast
    have "CHR '','' \<notin> set p" using p(1) by (rule split_no_separator)
    then have c: "CHR '','' \<notin> set t" using set_trim [of p] p(2) by blast
    have "\<not> isWhiteSpace (hd t)" "\<not> isWhiteSpace (last t)"
      using hd_trim [of p] last_trim [of p] ne unfolding p(2) by blast+
    with ne c show ?thesis by blast
  qed
  have j: "join '','' (split CHR '','' raw) = raw"
    by (rule join_split)
  have tokens: "\<forall>t\<in>set ?stored. t \<noteq> [] \<and> CHR '','' \<notin> set t
      \<and> \<not> isWhiteSpace (hd t) \<and> \<not> isWhiteSpace (last t)"
    using tok by blast
  have abc: "\<exists>obj. arrayGet (schema (onChangeAllowedValues index ''a, b ,, c'' prev)) index
      = Some obj \<and> allowed_values obj = Some [''a'', ''b'', ''c'']"
    using get [of "''a, b ,, c''"] unfolding ex .
  show ?thesis
    unfolding Let_def by (intro conjI) (rule get, rule j, rule tokens, rule abc)
qed

theorem allowed_values_from_raw_witness:
  "(0::int) \<le> 0 \<and> (0::int) < 4294967295
   \<and> (\<exists>obj. arrayGet (schema (onChangeAllowedValues 0 ''a, ,b'' oneFieldConfig)) 0 = Some obj
        \<and> allowed_values obj = Some [''a'', ''b''])
   \<and> (\<exists>obj. arrayGet (schema (onChangeAllowedValues 0 [CHR ''a'', CHR '','', CHR 0xA0]
          oneFieldConfig)) 0 = Some obj
        \<and> allowed_values obj = Some [''a''])
   \<and> (\<exists>obj. arrayGet (schema (onChangeAllowedValues 0 ''a, b ,, c'' oneFieldConfig)) 0 = Some obj
        \<and> allowed_values obj = Some [''a'', ''b'', ''c''])"
proof -
  have h: "(0::int) \<le> 0" "(0::int) < 4294967295" by simp_all
  have ex: "filter (\<lambda>t. t \<noteq> []) (map trim (split CHR '','' ''a, ,b'')) = [''a'', ''b'']"
    by (simp add: trim_def isWhiteSpace_def codeUnit_def)
  have nb: "filter (\<lambda>t. t \<noteq> []) (map trim (split CHR '','' [CHR ''a'', CHR '','', CHR 0xA0]))
      = [''a'']"
    by (simp add: trim_def isWhiteSpace_def codeUnit_def)
  from allowed_values_from_raw [OF h, of "''a, ,b''" oneFieldConfig]
    allowed_values_from_raw [OF h, of "[CHR ''a'', CHR '','', CHR 0xA0]" oneFieldConfig]
  show ?thesis
    unfolding Let_def ex nb by simp
qed
section \<open>Comparing two reports\<close>

text \<open>
  C7: when a report is not selected, or the two selected identifiers are equal, the
  comparison is refused: the only effect of \<^verbatim>\<open>handleCompare\<close> is the message that asks
  for two different reports (the validation error of the specification), and no
  comparison is made.  When two different reports are selected and the gateway returns
  both, the delta shown is the number of issues of report B minus that of report A.
\<close>

theorem handleCompare_delta:
  "(falsy (compareIds_a st) \<or> falsy (compareIds_b st) \<or> compareIds_a st = compareIds_b st \<longrightarrow>
      handleCompare fetchJSON st = st\<lparr>message := ''Choose two different reports to compare.''\<rparr>
      \<and> comparison (handleCompare fetchJSON st) = comparison st)
   \<and> (compareIds_a st = Some a \<and> compareIds_b st = Some b \<and> a \<noteq> [] \<and> b \<noteq> [] \<and> a \<noteq> b
       \<and> fetchJSON (''/reports/'' @ a) = Inr A \<and> fetchJSON (''/reports/'' @ b) = Inr B \<longrightarrow>
      comparison (handleCompare fetchJSON st) = Some (A, B)
      \<and> delta (handleCompare fetchJSON st)
          = Some (issues_found (summary B) - issues_found (summary A)))"
proof (intro conjI impI)
  assume "falsy (compareIds_a st) \<or> falsy (compareIds_b st) \<or> compareIds_a st = compareIds_b st"
  then show refused: "handleCompare fetchJSON st
      = st\<lparr>message := ''Choose two different reports to compare.''\<rparr>"
    by (simp add: handleCompare_def)
  show "comparison (handleCompare fetchJSON st) = comparison st"
    unfolding refused by simp
next
  assume sel: "compareIds_a st = Some a \<and> compareIds_b st = Some b \<and> a \<noteq> [] \<and> b \<noteq> []
      \<and> a \<noteq> b \<and> fetchJSON (''/reports/'' @ a) = Inr A \<and> fetchJSON (''/reports/'' @ b) = Inr B"
  then have "\<not> (falsy (compareIds_a st) \<or> falsy (compareIds_b st)
      \<or> compareIds_a st = compareIds_b st)"
    by (simp add: falsy_def Boolean_def)
  with sel have compared: "handleCompare fetchJSON st = st\<lparr>comparison := Some (A, B)\<rparr>"
    by (simp add: handleCompare_def)
  show "comparison (handleCompare fetchJSON st) = Some (A, B)"
    unfolding compared by simp
  show "delta (handleCompare fetchJSON st)
      = Some (issues_found (summary B) - issues_found (summary A))"
    unfolding compared by (simp add: delta_def)
qed

theorem handleCompare_delta_witness:
  "delta (handleCompare storedReports
     (initialComparison\<lparr>compareIds_a := Some ''a'', compareIds_b := Some ''b''\<rparr>)) = Some (- 2)
   \<and> handleCompare storedReports
       (initialComparison\<lparr>compareIds_a := Some ''a'', compareIds_b := Some ''a''\<rparr>)
      = initialComparison\<lparr>compareIds_a := Some ''a'', compareIds_b := Some ''a'',
          message := ''Choose two different reports to compare.''\<rparr>
   \<and> delta (handleCompare storedReports
       (initialComparison\<lparr>compareIds_a := Some ''a'', compareIds_b := Some ''a''\<rparr>)) = None
   \<and> message (handleCompare storedReports
       (initialComparison\<lparr>compareIds_a := Some ''a''\<rparr>))
      = ''Choose two different reports to compare.''"
proof -
  let ?ab = "initialComparison\<lparr>compareIds_a := Some ''a'', compareIds_b := Some ''b''\<rparr>"
  let ?aa = "initialComparison\<lparr>compareIds_a := Some ''a'', compareIds_b := Some ''a''\<rparr>"
  let ?a = "initialComparison\<lparr>compareIds_a := Some ''a''\<rparr>"
  have ab: "compareIds_a ?ab = Some ''a'' \<and> compareIds_b ?ab = Some ''b'' \<and> ''a'' \<noteq> []
      \<and> ''b'' \<noteq> [] \<and> ''a'' \<noteq> ''b''
      \<and> storedReports (''/reports/'' @ ''a'') = Inr reportA
      \<and> storedReports (''/reports/'' @ ''b'') = Inr reportB"
    by (simp add: storedReports_def)
  have n: "issues_found (summary reportB) - issues_found (summary reportA) = - 2"
    by (simp add: reportA_def reportB_def emptyReport_def)
  from handleCompare_delta [of ?ab storedReports "''a''" "''b''" reportA reportB] ab
  have 1: "delta (handleCompare storedReports ?ab) = Some (- 2)"
    unfolding n by blast
  have aa: "falsy (compareIds_a ?aa) \<or> falsy (compareIds_b ?aa)
      \<or> compareIds_a ?aa = compareIds_b ?aa"
    by simp
  from handleCompare_delta [of ?aa storedReports] aa
  have 2: "handleCompare storedReports ?aa
      = ?aa\<lparr>message := ''Choose two different reports to compare.''\<rparr>"
    by blast
  then have 3: "delta (handleCompare storedReports ?aa) = None"
    by (simp add: delta_def initialComparison_def)
  have a: "falsy (compareIds_a ?a) \<or> falsy (compareIds_b ?a)
      \<or> compareIds_a ?a = compareIds_b ?a"
    by (simp add: initialComparison_def falsy_def)
  from handleCompare_delta [of ?a storedReports] a
  have "handleCompare storedReports ?a
      = ?a\<lparr>message := ''Choose two different reports to compare.''\<rparr>"
    by blast
  then have 4: "message (handleCompare storedReports ?a)
      = ''Choose two different reports to compare.''"
    by simp
  from 1 2 3 4 show ?thesis by simp
qed

end
